(* ===== verification/Prelude.thy ===== *)
theory Prelude
  imports
    Complex_Main
    "HOL-Library.List_Lexorder"
    "HOL-Library.Char_ord"
    "HOL-Library.Sublist"
    "HOL-Library.Multiset"
begin

text \<open>
  Shared vocabulary of the finance-tracker development: the JavaScript string
  and number primitives the sources call (\<open>toLowerCase\<close>, \<open>includes\<close>,
  \<open>padStart\<close>, number-to-string conversion), the collections of lemmas the
  component theories use, and generic lemmas on lists and \<open>foldl\<close>.

  JavaScript numbers are modelled as exact rationals (\<open>rat\<close>): every amount the
  application handles comes from \<open>parseFloat\<close> of a decimal form input and is
  only added, subtracted, divided and compared.  Strings are Isabelle strings
  (lists of 8-bit characters); the sources only manipulate ASCII text
  (dates, digits, category names), where UTF-16 code units and bytes agree.
\<close>

named_theorems js_simps \<open>evaluation rules of the JavaScript primitives\<close>
named_theorems model_defs \<open>definitions of the model unfolded by the component proofs\<close>

type_synonym js_string = string

section \<open>Strings\<close>

subsection \<open>\<open>String.prototype.toLowerCase\<close> on ASCII\<close>

definition js_lower_char :: "char \<Rightarrow> char" where
  "js_lower_char c =
     (if CHR ''A'' \<le> c \<and> c \<le> CHR ''Z'' then char_of (of_char c + (32::nat)) else c)"

definition js_lower :: "js_string \<Rightarrow> js_string" where
  "js_lower s = map js_lower_char s"

subsection \<open>\<open>String.prototype.includes\<close>\<close>

text \<open>
  \<open>hay.includes(needle)\<close> scans the start positions of \<open>hay\<close> from left to
  right and succeeds at the first one where \<open>needle\<close> is a prefix of the rest;
  the empty needle is found at position 0, also in the empty string.
\<close>

fun js_includes :: "js_string \<Rightarrow> js_string \<Rightarrow> bool" where
  "js_includes [] needle = (needle = [])"
| "js_includes (c # cs) needle = (prefix needle (c # cs) \<or> js_includes cs needle)"

subsection \<open>Number to string (\<open>String(n)\<close>, \<open>n.toString()\<close>) and \<open>padStart\<close>\<close>

definition digit_char :: "nat \<Rightarrow> char" where
  "digit_char d = ''0123456789'' ! d"

fun show_nat :: "nat \<Rightarrow> js_string" where
  "show_nat n = (if n < 10 then [digit_char n] else show_nat (n div 10) @ [digit_char (n mod 10)])"

declare show_nat.simps [simp del]

definition show_int :: "int \<Rightarrow> js_string" where
  "show_int i = (if i < 0 then CHR ''-'' # show_nat (nat (- i)) else show_nat (nat i))"

definition pad_start :: "nat \<Rightarrow> js_string \<Rightarrow> js_string" where
  "pad_start n s = replicate (n - length s) (CHR ''0'') @ s"

subsection \<open>Reading decimal digits\<close>

definition digit_value :: "char \<Rightarrow> nat option" where
  "digit_value c =
     (if CHR ''0'' \<le> c \<and> c \<le> CHR ''9'' then Some (of_char c - 48) else None)"

fun digits_acc :: "nat \<Rightarrow> js_string \<Rightarrow> nat option" where
  "digits_acc acc [] = Some acc"
| "digits_acc acc (c # cs) =
     (case digit_value c of None \<Rightarrow> None | Some d \<Rightarrow> digits_acc (10 * acc + d) cs)"

definition read_nat :: "js_string \<Rightarrow> nat option" where
  "read_nat s = (if s = [] then None else digits_acc 0 s)"

section \<open>Integer division\<close>

lemma div_Suc_int: "1 < (n::int) \<Longrightarrow> (a + 1) div n = a div n + (if (a + 1) mod n = 0 then 1 else 0)"
proof -
  assume n: "1 < n"
  let ?r = "a mod n"
  have r: "0 \<le> ?r" "?r < n" using n by simp_all
  have "(a + 1) div n = a div n + (?r + 1) div n"
    using n by (simp add: div_add1_eq [of a 1 n])
  moreover have "(?r + 1) div n = (if ?r + 1 = n then 1 else 0)"
    using r by (auto simp: div_pos_pos_trivial)
  moreover have "(a + 1) mod n = 0 \<longleftrightarrow> ?r + 1 = n"
  proof -
    have "(a + 1) mod n = (?r + 1) mod n" by (simp add: mod_add_left_eq)
    also have "\<dots> = (if ?r + 1 = n then 0 else ?r + 1)"
      using r by auto
    finally show ?thesis using r by auto
  qed
  ultimately show ?thesis by simp
qed

lemma mod_sub_multiple: "((a::int) - k * n) mod n = a mod n"
  using mod_mult_self1 [of a "- k" n] by simp

section \<open>Lemmas on the string primitives\<close>

lemma js_lower_Nil [simp, js_simps]: "js_lower [] = []"
  by (simp add: js_lower_def)

lemma js_lower_Cons [simp, js_simps]: "js_lower (c # cs) = js_lower_char c # js_lower cs"
  by (simp add: js_lower_def)

lemma length_js_lower [simp]: "length (js_lower s) = length s"
  by (simp add: js_lower_def)

lemma js_includes_sublist: "js_includes hay needle \<longleftrightarrow> sublist needle hay"
proof (induction hay)
  case Nil
  then show ?case by simp
next
  case (Cons c cs)
  then show ?case by (auto simp: sublist_Cons_right)
qed

lemma js_includes_Nil_needle [simp]: "js_includes hay []"
  by (simp add: js_includes_sublist)

lemma digit_char_value [simp]: "d < 10 \<Longrightarrow> digit_value (digit_char d) = Some d"
proof -
  assume "d < 10"
  then have "d \<in> {0, 1, 2, 3, 4, 5, 6, 7, 8, 9}" by auto
  then show ?thesis by (auto simp: digit_value_def digit_char_def)
qed

lemma digits_acc_append:
  "digits_acc acc (xs @ ys) = (case digits_acc acc xs of None \<Rightarrow> None | Some a \<Rightarrow> digits_acc a ys)"
  by (induction xs arbitrary: acc) (auto split: option.splits)

lemma digits_acc_show_nat: "digits_acc acc (show_nat n) = Some (10 ^ length (show_nat n) * acc + n)"
proof (induction n arbitrary: acc rule: show_nat.induct)
  case (1 n)
  show ?case
  proof (cases "n < 10")
    case True
    then show ?thesis by (simp add: show_nat.simps [of n])
  next
    case False
    then have "digits_acc acc (show_nat n) =
        Some (10 * (10 ^ length (show_nat (n div 10)) * acc + n div 10) + n mod 10)"
      using "1.IH" by (simp add: show_nat.simps [of n] digits_acc_append)
    also have "\<dots> = Some (10 ^ length (show_nat n) * acc + n)"
      using False by (simp add: show_nat.simps [of n] algebra_simps)
    finally show ?thesis .
  qed
qed

lemma show_nat_not_Nil [simp]: "show_nat n \<noteq> []"
  by (subst show_nat.simps) simp

lemma read_show_nat [simp]: "read_nat (show_nat n) = Some n"
  by (simp add: read_nat_def digits_acc_show_nat)

lemma show_nat_inj: "show_nat m = show_nat n \<longleftrightarrow> m = n"
  by (metis option.inject read_show_nat)

end
