(* ===== verification/Transaction.thy ===== *)
theory Transaction
  imports Prelude
begin

text \<open>
  The one entity of the application: a transaction object as \<open>handleFormSubmit\<close>
  in \<open>src/script.js\<close> builds it (\<open>{ id, ...formData }\<close>), and the \<open>reduce\<close>
  that every aggregate of \<open>src/script.js\<close> and \<open>src/charts.js\<close> uses to sum
  amounts.
\<close>

datatype tx_type = Income | Expense

record transaction =
  tx_id :: js_string
  tx_type :: tx_type
  category :: js_string
  amount :: rat
  date :: js_string
  description :: js_string

text \<open>\<open>xs.reduce((s, t) => s + t.amount, 0)\<close>: a left fold from 0.\<close>

definition sum_amount :: "transaction list \<Rightarrow> rat" where
  "sum_amount ts = foldl (\<lambda>s t. s + amount t) 0 ts"

definition ids :: "transaction list \<Rightarrow> js_string list" where
  "ids ts = map tx_id ts"

lemma ids_Cons [simp]: "ids (t # ts) = tx_id t # ids ts"
  by (simp add: ids_def)

lemma foldl_add_amount: "foldl (\<lambda>s t. s + amount t) a ts = a + sum_list (map amount ts)"
  by (induction ts arbitrary: a) (simp_all add: algebra_simps)

lemma sum_amount_sum_list: "sum_amount ts = sum_list (map amount ts)"
  by (simp add: sum_amount_def foldl_add_amount)

lemma sum_amount_Nil [simp]: "sum_amount [] = 0"
  by (simp add: sum_amount_def)

lemma sum_amount_Cons [simp]: "sum_amount (t # ts) = amount t + sum_amount ts"
  by (simp add: sum_amount_sum_list)

lemma sum_amount_append [simp]: "sum_amount (xs @ ys) = sum_amount xs + sum_amount ys"
  by (simp add: sum_amount_sum_list)

lemma sum_amount_mset: "mset xs = mset ys \<Longrightarrow> sum_amount xs = sum_amount ys"
proof -
  have "sum_list (map amount xs) = sum_mset (image_mset amount (mset xs))"
    by (metis mset_map sum_mset_sum_list)
  also assume "mset xs = mset ys"
  then have "sum_mset (image_mset amount (mset xs)) = sum_list (map amount ys)"
    by (metis mset_map sum_mset_sum_list)
  finally show ?thesis by (simp add: sum_amount_sum_list)
qed

lemma sum_amount_nonneg: "\<forall>t \<in> set ts. 0 \<le> amount t \<Longrightarrow> 0 \<le> sum_amount ts"
  by (induction ts) auto

end
