(* ===== verification/Dates.thy ===== *)
theory Dates
  imports Prelude
begin

text \<open>
  The date handling the sources rely on.  Transactions store their date as the
  string an \<open><input type="date">\<close> yields, \<open>YYYY-MM-DD\<close>.  The code turns it
  into a \<open>Date\<close> (\<open>new Date(t.date)\<close>), compares \<open>Date\<close>s with \<open><\<close>, \<open>>\<close>,
  \<open><=\<close>, \<open>>=\<close>, reads the local year and month of a \<open>Date\<close>
  (\<open>getFullYear\<close>, \<open>getMonth\<close>), and prints the UTC date of a \<open>Date\<close>
  (\<open>toISOString().split('T')[0]\<close>).  These are ECMAScript library functions,
  modelled here from the ECMAScript specification:
  \<^item> a date-only ISO string denotes UTC midnight of that day; its time value is
    \<open>MakeDay(y, m - 1, d) * msPerDay\<close> with \<open>DayFromYear\<close> as the
    specification writes it; V8 accepts a month 1 to 12 and a day 1 to 31 and
    lets \<open>MakeDay\<close> roll a day past the month's end into the next month, and
    gives \<open>NaN\<close> (here \<open>None\<close>) for any other string of the shape;
  \<^item> relational comparison of two \<open>Date\<close>s compares their time values, and is
    false when either is \<open>NaN\<close>;
  \<^item> the local calendar date of UTC midnight, for a fixed time-zone offset of
    \<open>tz\<close> minutes east of UTC with \<open>-1440 < tz < 1440\<close>, is the same day when
    \<open>tz \<ge> 0\<close> and the day before when \<open>tz < 0\<close>.
  Only the four-digit-year form of the ISO format is modelled: it is the only one
  a date input produces for years 0000 to 9999.  A string of any other shape is
  \<open>NaN\<close> here; V8 would hand some of them (\<open>2024-1-5\<close>, with a time, with
  a sign) to its legacy parser, which no string the application stores needs.
\<close>

type_synonym ymd = "int \<times> nat \<times> nat"

section \<open>Calendar\<close>

definition is_leap :: "int \<Rightarrow> bool" where
  "is_leap y \<longleftrightarrow> y mod 4 = 0 \<and> (y mod 100 \<noteq> 0 \<or> y mod 400 = 0)"

definition days_in_month :: "int \<Rightarrow> nat \<Rightarrow> nat" where
  "days_in_month y m =
     (if m = 2 then (if is_leap y then 29 else 28)
      else if m = 4 \<or> m = 6 \<or> m = 9 \<or> m = 11 then 30 else 31)"

definition valid_ymd :: "ymd \<Rightarrow> bool" where
  "valid_ymd ymd \<longleftrightarrow>
     (case ymd of (y, m, d) \<Rightarrow> 1 \<le> m \<and> m \<le> 12 \<and> 1 \<le> d \<and> d \<le> days_in_month y m)"

text \<open>ECMAScript \<open>DayFromYear\<close>, \<open>MakeDay\<close> and \<open>MakeDate\<close> at midnight.\<close>

definition day_from_year :: "int \<Rightarrow> int" where
  "day_from_year y =
     365 * (y - 1970) + (y - 1969) div 4 - (y - 1901) div 100 + (y - 1601) div 400"

definition days_before_month :: "int \<Rightarrow> nat \<Rightarrow> nat" where
  "days_before_month y m = sum_list (map (days_in_month y) [1..<m])"

definition day_number :: "ymd \<Rightarrow> int" where
  "day_number ymd =
     (case ymd of (y, m, d) \<Rightarrow> day_from_year y + int (days_before_month y m) + int d - 1)"

definition ms_per_day :: int where
  "ms_per_day = 86400000"

definition time_value :: "ymd \<Rightarrow> int" where
  "time_value ymd = day_number ymd * ms_per_day"

text \<open>The day before a calendar date.\<close>

definition prev_day :: "ymd \<Rightarrow> ymd" where
  "prev_day ymd =
     (case ymd of (y, m, d) \<Rightarrow>
        if 1 < d then (y, m, d - 1)
        else if 1 < m then (y, m - 1, days_in_month y (m - 1))
        else (y - 1, 12, 31))"

fun days_back :: "nat \<Rightarrow> ymd \<Rightarrow> ymd" where
  "days_back 0 ymd = ymd"
| "days_back (Suc i) ymd = prev_day (days_back i ymd)"

section \<open>Parsing and printing \<open>YYYY-MM-DD\<close>\<close>

text \<open>
  The fields of a string of the shape \<open>YYYY-MM-DD\<close>, read as decimals
  (V8's \<open>DateParser\<close> on the ISO date-only form).
\<close>

definition iso_fields :: "js_string \<Rightarrow> ymd option" where
  "iso_fields s =
     (case s of
        [y1, y2, y3, y4, h1, m1, m2, h2, d1, d2] \<Rightarrow>
          if h1 = CHR ''-'' \<and> h2 = CHR ''-'' then
            (case (read_nat [y1, y2, y3, y4], read_nat [m1, m2], read_nat [d1, d2]) of
               (Some y, Some m, Some d) \<Rightarrow> Some (int y, m, d)
             | _ \<Rightarrow> None)
          else None
      | _ \<Rightarrow> None)"

text \<open>
  \<open>MakeDay(y, m - 1, d)\<close> for a day of month \<open>1..31\<close>: a day past the end of
  the month rolls over into the next month (\<open>2024-02-30\<close> is 1 March).  December
  has 31 days, so the year never changes.
\<close>

definition make_day :: "ymd \<Rightarrow> ymd" where
  "make_day ymd =
     (case ymd of (y, m, d) \<Rightarrow>
        if d \<le> days_in_month y m then (y, m, d) else (y, Suc m, d - days_in_month y m))"

text \<open>
  \<open>new Date(s)\<close> on the ISO form: V8 accepts a month \<open>1..12\<close> and a day
  \<open>1..31\<close> (\<open>DayComposer::Write\<close>) and leaves the rest to \<open>MakeDay\<close>.
\<close>

definition parse_iso_date :: "js_string \<Rightarrow> ymd option" where
  "parse_iso_date s =
     (case iso_fields s of
        Some (y, m, d) \<Rightarrow> if 1 \<le> m \<and> m \<le> 12 \<and> 1 \<le> d \<and> d \<le> 31 then Some (make_day (y, m, d)) else None
      | None \<Rightarrow> None)"

text \<open>A date string naming a day of the calendar, as a date input yields it.\<close>

definition canonical_date :: "js_string \<Rightarrow> bool" where
  "canonical_date s = (case iso_fields s of Some ymd \<Rightarrow> valid_ymd ymd | None \<Rightarrow> False)"

text \<open>\<open>new Date(s)\<close> for a date string: its time value, or \<open>None\<close> for \<open>NaN\<close>.\<close>

definition js_date :: "js_string \<Rightarrow> int option" where
  "js_date s = map_option time_value (parse_iso_date s)"

text \<open>Relational operators on two \<open>Date\<close> values: \<open>NaN\<close> compares false.\<close>

definition js_ge :: "int option \<Rightarrow> int option \<Rightarrow> bool" where
  "js_ge a b = (case (a, b) of (Some x, Some y) \<Rightarrow> x \<ge> y | _ \<Rightarrow> False)"

definition js_gt :: "int option \<Rightarrow> int option \<Rightarrow> bool" where
  "js_gt a b = (case (a, b) of (Some x, Some y) \<Rightarrow> x > y | _ \<Rightarrow> False)"

abbreviation js_le :: "int option \<Rightarrow> int option \<Rightarrow> bool" where
  "js_le a b \<equiv> js_ge b a"

abbreviation js_lt :: "int option \<Rightarrow> int option \<Rightarrow> bool" where
  "js_lt a b \<equiv> js_gt b a"

text \<open>\<open>toISOString().split('T')[0]\<close> of a time in the four-digit-year range.\<close>

definition iso_date_string :: "ymd \<Rightarrow> js_string" where
  "iso_date_string ymd =
     (case ymd of (y, m, d) \<Rightarrow>
        pad_start 4 (show_nat (nat y)) @ ''-'' @ pad_start 2 (show_nat m) @ ''-'' @ pad_start 2 (show_nat d))"

section \<open>Local year and month of a stored date\<close>

definition local_ymd :: "int \<Rightarrow> ymd \<Rightarrow> ymd" where
  "local_ymd tz ymd = (if tz < 0 then prev_day ymd else ymd)"

text \<open>
  \<open>`${d.getFullYear()}-${String(d.getMonth() + 1).padStart(2, '0')}`\<close> for
  \<open>d = new Date(t.date)\<close>; for an invalid date both getters return \<open>NaN\<close>.
\<close>

definition month_key :: "int \<Rightarrow> js_string \<Rightarrow> js_string" where
  "month_key tz s =
     (case parse_iso_date s of
        None \<Rightarrow> ''NaN-NaN''
      | Some ymd \<Rightarrow>
          (case local_ymd tz ymd of (y, m, d) \<Rightarrow> show_int y @ ''-'' @ pad_start 2 (show_nat m)))"

section \<open>Lemmas on the calendar\<close>

text \<open>The definitions a closed date computation unfolds.\<close>

lemmas date_eval = parse_iso_date_def iso_fields_def make_day_def read_nat_def digit_value_def valid_ymd_def days_in_month_def
  is_leap_def js_date_def time_value_def day_number_def day_from_year_def days_before_month_def
  ms_per_day_def js_ge_def js_gt_def month_key_def local_ymd_def prev_day_def show_int_def
  show_nat.simps digit_char_def pad_start_def

lemma js_ge_Some: "js_ge a b \<longleftrightarrow> (\<exists>x y. a = Some x \<and> b = Some y \<and> y \<le> x)"
  by (auto simp: js_ge_def split: option.splits)

lemma js_gt_Some: "js_gt a b \<longleftrightarrow> (\<exists>x y. a = Some x \<and> b = Some y \<and> y < x)"
  by (auto simp: js_gt_def split: option.splits)

lemma day_from_year_step:
  "day_from_year y = day_from_year (y - 1) + 365 + (if is_leap (y - 1) then 1 else 0)"
proof -
  have m4: "(y - 1969) mod 4 = 0 \<longleftrightarrow> (y - 1) mod 4 = 0"
    using mod_sub_multiple [of "y - 1" 492 4] by simp
  have m100: "(y - 1901) mod 100 = 0 \<longleftrightarrow> (y - 1) mod 100 = 0"
    using mod_sub_multiple [of "y - 1" 19 100] by simp
  have m400: "(y - 1601) mod 400 = 0 \<longleftrightarrow> (y - 1) mod 400 = 0"
    using mod_sub_multiple [of "y - 1" 4 400] by simp
  have a: "(y - 1969) div 4 = (y - 1 - 1969) div 4 + (if (y - 1969) mod 4 = 0 then 1 else 0)"
    using div_Suc_int [of 4 "y - 1 - 1969"] by simp
  have b: "(y - 1901) div 100 = (y - 1 - 1901) div 100 + (if (y - 1901) mod 100 = 0 then 1 else 0)"
    using div_Suc_int [of 100 "y - 1 - 1901"] by simp
  have c: "(y - 1601) div 400 = (y - 1 - 1601) div 400 + (if (y - 1601) mod 400 = 0 then 1 else 0)"
    using div_Suc_int [of 400 "y - 1 - 1601"] by simp
  show ?thesis
    unfolding day_from_year_def is_leap_def a b c m4 m100 m400 by auto
qed

lemma days_before_month_Suc:
  "days_before_month y (Suc m) = days_before_month y m + (if 1 \<le> m then days_in_month y m else 0)"
  by (simp add: days_before_month_def)

lemma days_before_Jan: "days_before_month y (Suc 0) = 0"
  by (simp add: days_before_month_def)

lemma days_before_Dec: "days_before_month y 12 = 334 + (if is_leap y then 1 else 0)"
  by (simp add: days_before_month_def days_in_month_def upt_rec)

lemma days_in_month_ge: "28 \<le> days_in_month y m"
  by (simp add: days_in_month_def)

lemma days_in_month_le: "days_in_month y m \<le> 31"
  by (simp add: days_in_month_def)

lemma days_in_month_Dec [simp]: "days_in_month y 12 = 31"
  by (simp add: days_in_month_def)

lemma valid_prev_day: "valid_ymd ymd \<Longrightarrow> valid_ymd (prev_day ymd)"
proof (cases ymd)
  case (fields y m d)
  assume v: "valid_ymd ymd"
  have "28 \<le> days_in_month y (m - 1)" by (rule days_in_month_ge)
  with v fields show ?thesis
    by (auto simp: valid_ymd_def prev_day_def)
qed

lemma day_number_prev_day: "valid_ymd ymd \<Longrightarrow> day_number (prev_day ymd) = day_number ymd - 1"
proof (cases ymd)
  case (fields y m d)
  assume v: "valid_ymd ymd"
  show ?thesis
  proof (cases "1 < d")
    case True
    with fields show ?thesis by (simp add: prev_day_def day_number_def of_nat_diff)
  next
    case d: False
    from d v fields have d1: "d = 1" by (simp add: valid_ymd_def)
    show ?thesis
    proof (cases "1 < m")
      case True
      then obtain k where k: "m = Suc k" "1 \<le> k" by (cases m) auto
      with fields d1 show ?thesis
        by (simp add: prev_day_def day_number_def days_before_month_Suc)
    next
      case False
      with fields v have "m = 1" by (auto simp: valid_ymd_def)
      with fields d1 show ?thesis
        using day_from_year_step [of y]
        by (simp add: prev_day_def day_number_def days_before_Dec days_before_Jan)
    qed
  qed
qed

lemma valid_days_back: "valid_ymd ymd \<Longrightarrow> valid_ymd (days_back i ymd)"
  by (induction i) (simp_all add: valid_prev_day)

lemma day_number_days_back:
  "valid_ymd ymd \<Longrightarrow> day_number (days_back i ymd) = day_number ymd - int i"
  by (induction i) (simp_all add: day_number_prev_day valid_days_back)

lemma make_day_overflow:
  assumes "m \<le> 12" "d \<le> 31" "days_in_month y m < d"
  shows "m < 12 \<and> 1 \<le> d - days_in_month y m \<and> d - days_in_month y m \<le> days_in_month y (Suc m)"
proof -
  have "m \<noteq> 12" using assms(3) assms(2) by (cases "m = 12") simp_all
  then show ?thesis using assms days_in_month_ge [of y m] days_in_month_ge [of y "Suc m"] by arith
qed

lemma valid_make_day:
  assumes "1 \<le> m" "m \<le> 12" "1 \<le> d" "d \<le> 31"
  shows "valid_ymd (make_day (y, m, d)) \<and> fst (make_day (y, m, d)) = y"
  using assms make_day_overflow [of m d y] by (auto simp: make_day_def valid_ymd_def)

lemma make_day_valid: "valid_ymd (y, m, d) \<Longrightarrow> make_day (y, m, d) = (y, m, d)"
  by (simp add: make_day_def valid_ymd_def)

text \<open>\<open>make_day\<close> computes \<open>MakeDay\<close>: its day number is the specification's sum.\<close>

lemma day_number_make_day:
  assumes "1 \<le> m" "m \<le> 12" "d \<le> 31"
  shows "day_number (make_day (y, m, d)) = day_from_year y + int (days_before_month y m) + int d - 1"
proof (cases "d \<le> days_in_month y m")
  case True
  then show ?thesis by (simp add: make_day_def day_number_def)
next
  case False
  then have "m < 12" "days_in_month y m < d" using make_day_overflow [of m d y] assms by simp_all
  then show ?thesis
    using assms by (simp add: make_day_def day_number_def days_before_month_Suc of_nat_diff)
qed

lemma parse_iso_date_Some:
  "parse_iso_date s = Some p \<longleftrightarrow>
     (\<exists>y m d. iso_fields s = Some (y, m, d) \<and> 1 \<le> m \<and> m \<le> 12 \<and> 1 \<le> d \<and> d \<le> 31 \<and> p = make_day (y, m, d))"
  by (auto simp: parse_iso_date_def split: option.splits)

lemma parse_iso_date_valid:
  assumes "parse_iso_date s = Some p"
  shows "valid_ymd p \<and> (\<exists>m d. iso_fields s = Some (fst p, m, d))"
  using assms valid_make_day unfolding parse_iso_date_Some by fastforce

lemma parse_canonical: "canonical_date s \<Longrightarrow> parse_iso_date s = iso_fields s"
proof (cases "iso_fields s")
  case (Some p)
  moreover obtain y m d where "p = (y, m, d)" by (cases p) auto
  moreover assume "canonical_date s"
  ultimately show ?thesis
    using days_in_month_le [of y m]
    by (simp add: canonical_date_def parse_iso_date_def make_day_valid valid_ymd_def)
qed (simp add: canonical_date_def)

end
