(* ===== verification/DateText.thy ===== *)
theory DateText
  imports Dates
begin

text \<open>
  The text form of dates.  \<open>dec n a\<close> is the \<open>n\<close>-digit decimal text of
  \<open>a\<close> with leading zeros: what \<open>padStart(n, '0')\<close> of \<open>String(a)\<close> yields
  and what the date-string parser reads back.  The lemmas show that
  \<open>toISOString().split('T')[0]\<close> and \<open>new Date(s)\<close> are inverse on valid
  dates of years 0000 to 9999, and that comparing two canonical date strings as
  strings (\<open><=\<close> on strings in JavaScript, the lexicographic order of
  \<open>List_Lexorder\<close> here) is comparing the dates.  For a string that V8 rolls
  over (\<open>2024-02-31\<close> is 2 March) the two orders differ.
\<close>

definition dec :: "nat \<Rightarrow> nat \<Rightarrow> js_string" where
  "dec n a = map (\<lambda>i. digit_char (a div 10 ^ (n - Suc i) mod 10)) [0..<n]"

definition iso_form :: "nat \<Rightarrow> nat \<Rightarrow> nat \<Rightarrow> js_string" where
  "iso_form y m d = dec 4 y @ ''-'' @ dec 2 m @ ''-'' @ dec 2 d"

text \<open>The lexicographic order of (year, month, day).\<close>

definition lex3_le :: "'a::linorder \<times> 'b::linorder \<times> 'c::linorder \<Rightarrow> 'a \<times> 'b \<times> 'c \<Rightarrow> bool" where
  "lex3_le p q =
     (case (p, q) of ((a, b, c), (a', b', c')) \<Rightarrow> a < a' \<or> a = a' \<and> (b < b' \<or> b = b' \<and> c \<le> c'))"

lemma length_dec [simp]: "length (dec n a) = n"
  by (simp add: dec_def)

lemma dec_0 [simp]: "dec 0 a = []"
  by (simp add: dec_def)

lemma dec_Suc_snoc: "dec (Suc n) a = dec n (a div 10) @ [digit_char (a mod 10)]"
proof -
  have "a div 10 ^ (Suc n - Suc i) mod 10 = a div 10 div 10 ^ (n - Suc i) mod 10" if "i < n" for i
  proof -
    have "Suc n - Suc i = Suc (n - Suc i)" using that by simp
    then show ?thesis by (simp add: div_mult2_eq)
  qed
  then show ?thesis by (simp add: dec_def)
qed

lemma dec_Suc_cons: "dec (Suc n) a = digit_char (a div 10 ^ n mod 10) # dec n a"
  by (simp add: dec_def upt_conv_Cons map_Suc_upt [symmetric] del: upt_Suc)

lemma digit_char_of_char: "d < 10 \<Longrightarrow> of_char (digit_char d) = 48 + d"
proof -
  assume "d < 10"
  then have "d \<in> {0, 1, 2, 3, 4, 5, 6, 7, 8, 9}" by auto
  then show ?thesis by (auto simp: digit_char_def)
qed

lemma digit_value_Some: "digit_value c = Some d \<Longrightarrow> d < 10 \<and> digit_char d = c"
proof -
  assume v: "digit_value c = Some d"
  then have r: "48 \<le> (of_char c :: nat)" "(of_char c :: nat) \<le> 57" "d = of_char c - 48"
    by (auto simp: digit_value_def less_eq_char_def split: if_splits)
  then have d: "d < 10" by simp
  have "of_char (digit_char d) = (of_char c :: nat)" using r digit_char_of_char [OF d] by simp
  then have "char_of (of_char (digit_char d) :: nat) = char_of (of_char c :: nat)" by simp
  then show ?thesis using d by simp
qed

lemma digit_char_less: "d < 10 \<Longrightarrow> d' < 10 \<Longrightarrow> digit_char d < digit_char d' \<longleftrightarrow> d < d'"
  by (simp add: less_char_def digit_char_of_char)

lemma digit_char_eq: "d < 10 \<Longrightarrow> d' < 10 \<Longrightarrow> digit_char d = digit_char d' \<longleftrightarrow> d = d'"
  by (metis digit_char_value option.inject)

lemma dec_mod: "dec n (a mod 10 ^ n) = dec n a"
proof -
  have "a mod 10 ^ n div 10 ^ (n - Suc i) mod 10 = a div 10 ^ (n - Suc i) mod 10" if "i < n" for i
  proof -
    let ?k = "n - Suc i"
    have n: "(10::nat) ^ n = 10 ^ ?k * 10 ^ Suc i"
      using that by (simp add: power_add [symmetric] del: power_Suc)
    have "a mod 10 ^ n div 10 ^ ?k = a div 10 ^ ?k mod 10 ^ Suc i"
      unfolding n by (simp add: mod_mult2_eq)
    then show ?thesis by (simp add: mod_mod_cancel)
  qed
  then show ?thesis by (simp add: dec_def)
qed

lemma place_value_le:
  fixes p :: nat
  assumes "la < p" "lb < p"
  shows "ha * p + la \<le> hb * p + lb \<longleftrightarrow> ha < hb \<or> ha = hb \<and> la \<le> lb"
proof (cases ha hb rule: linorder_cases)
  case less
  then have "ha * p + la < Suc ha * p" using assms by simp
  also have "\<dots> \<le> hb * p" using less by (metis Suc_leI mult_le_mono1)
  finally show ?thesis using less by simp
next
  case greater
  then have "hb * p + lb < Suc hb * p" using assms by simp
  also have "\<dots> \<le> ha * p" using greater by (metis Suc_leI mult_le_mono1)
  finally show ?thesis using greater by simp
qed simp

lemma dec_le: "a < 10 ^ n \<Longrightarrow> b < 10 ^ n \<Longrightarrow> dec n a \<le> dec n b \<longleftrightarrow> a \<le> b"
proof (induction n arbitrary: a b)
  case 0
  then show ?case by simp
next
  case (Suc n)
  let ?p = "10 ^ n :: nat"
  have ha: "a div ?p < 10" and hb: "b div ?p < 10"
    using Suc.prems by (simp_all add: div_less_iff_less_mult mult.commute)
  have lo: "a mod ?p < ?p" "b mod ?p < ?p" by simp_all
  have "dec (Suc n) a = digit_char (a div ?p) # dec n (a mod ?p)"
    using ha by (simp add: dec_Suc_cons dec_mod)
  moreover have "dec (Suc n) b = digit_char (b div ?p) # dec n (b mod ?p)"
    using hb by (simp add: dec_Suc_cons dec_mod)
  ultimately have "dec (Suc n) a \<le> dec (Suc n) b \<longleftrightarrow>
      a div ?p < b div ?p \<or> a div ?p = b div ?p \<and> a mod ?p \<le> b mod ?p"
    using Suc.IH [OF lo] by (simp add: digit_char_less [OF ha hb] digit_char_eq [OF ha hb])
  also have "\<dots> \<longleftrightarrow> a div ?p * ?p + a mod ?p \<le> b div ?p * ?p + b mod ?p"
    using place_value_le [OF lo] by simp
  finally show ?case by (simp only: div_mult_mod_eq)
qed

lemma show_nat_dec:
  "show_nat a = dec (length (show_nat a)) a \<and> a < 10 ^ length (show_nat a)
   \<and> (length (show_nat a) = 1 \<or> 10 ^ (length (show_nat a) - 1) \<le> a)"
proof (induction a rule: show_nat.induct)
  case (1 a)
  show ?case
  proof (cases "a < 10")
    case True
    then show ?thesis by (simp add: show_nat.simps [of a] dec_Suc_snoc)
  next
    case False
    let ?L = "length (show_nat (a div 10))"
    have IH: "show_nat (a div 10) = dec ?L (a div 10)" "a div 10 < 10 ^ ?L"
      "?L = 1 \<or> 10 ^ (?L - 1) \<le> a div 10"
      using "1.IH" False by simp_all
    have L: "1 \<le> ?L" by (simp add: Suc_leI)
    have s: "show_nat a = show_nat (a div 10) @ [digit_char (a mod 10)]"
      using False by (simp add: show_nat.simps [of a])
    have "a < 10 * 10 ^ ?L" using IH(2) by linarith
    moreover have "10 * 10 ^ (?L - 1) \<le> a" using IH(3) False by auto
    ultimately show ?thesis
      using IH(1) L by (simp add: s dec_Suc_snoc power_Suc [symmetric] del: power_Suc)
  qed
qed

lemma replicate_zero_dec: "a < 10 ^ m \<Longrightarrow> replicate k (CHR ''0'') @ dec m a = dec (k + m) a"
proof (induction k)
  case 0
  then show ?case by simp
next
  case (Suc k)
  have "a < 10 ^ (k + m)"
    using Suc.prems by (metis le_add2 less_le_trans one_le_numeral power_increasing)
  then show ?case using Suc by (simp add: dec_Suc_cons digit_char_def)
qed

lemma pad_start_dec: "0 < n \<Longrightarrow> a < 10 ^ n \<Longrightarrow> pad_start n (show_nat a) = dec n a"
proof -
  assume n: "0 < n" and a: "a < 10 ^ n"
  let ?L = "length (show_nat a)"
  have s: "show_nat a = dec ?L a" "a < 10 ^ ?L" "?L = 1 \<or> 10 ^ (?L - 1) \<le> a"
    using show_nat_dec [of a] by simp_all
  have "?L \<le> n"
  proof (rule ccontr)
    assume "\<not> ?L \<le> n"
    then have le: "(10::nat) ^ n \<le> 10 ^ (?L - 1)" by (simp add: power_increasing)
    show False
    proof (cases "?L = 1")
      case True
      with \<open>\<not> ?L \<le> n\<close> n show False by simp
    next
      case False
      with s(3) have "10 ^ (?L - 1) \<le> a" by simp
      with le a show False by (meson leD less_le_trans)
    qed
  qed
  then show ?thesis
    using replicate_zero_dec [OF s(2), of "n - ?L"] s(1) by (simp add: pad_start_def)
qed

lemma digits_acc_dec: "digits_acc 0 (dec n a) = Some (a mod 10 ^ n)"
proof (induction n arbitrary: a)
  case 0
  then show ?case by simp
next
  case (Suc n)
  have "a mod (10 * 10 ^ n) = 10 * (a div 10 mod 10 ^ n) + a mod 10" by (rule mod_mult2_eq)
  then show ?case using Suc by (simp add: dec_Suc_snoc digits_acc_append)
qed

lemma digits_acc_inverse:
  "digits_acc 0 ds = Some k \<Longrightarrow> ds = dec (length ds) k \<and> k < 10 ^ length ds"
proof (induction ds arbitrary: k rule: rev_induct)
  case Nil
  then show ?case by simp
next
  case (snoc c xs)
  obtain a d where a: "digits_acc 0 xs = Some a" and d: "digit_value c = Some d" and k: "k = 10 * a + d"
    using snoc.prems by (auto simp: digits_acc_append split: option.splits)
  have d10: "d < 10" and c: "digit_char d = c" using digit_value_Some [OF d] by simp_all
  have xs: "xs = dec (length xs) a" "a < 10 ^ length xs" using snoc.IH [OF a] by simp_all
  have "k div 10 = a" "k mod 10 = d" using k d10 by simp_all
  moreover have "k < 10 ^ length (xs @ [c])" using k d10 xs(2) by simp
  ultimately show ?case using xs(1) c by (simp add: dec_Suc_snoc)
qed

lemma read_nat_inverse: "read_nat ds = Some k \<Longrightarrow> ds = dec (length ds) k \<and> k < 10 ^ length ds"
  by (simp add: read_nat_def digits_acc_inverse split: if_splits)

lemma read_nat_inverse_length:
  "read_nat ds = Some k \<Longrightarrow> length ds = n \<Longrightarrow> ds = dec n k \<and> k < 10 ^ n"
  using read_nat_inverse by blast

lemma read_nat_dec: "0 < n \<Longrightarrow> a < 10 ^ n \<Longrightarrow> read_nat (dec n a) = Some a"
  by (simp add: read_nat_def digits_acc_dec flip: length_greater_0_conv)

lemma dec_4: obtains c1 c2 c3 c4 where "dec 4 a = [c1, c2, c3, c4]"
  by (simp add: dec_def upt_rec)

lemma dec_2: obtains c1 c2 where "dec 2 a = [c1, c2]"
  by (simp add: dec_def upt_rec)

lemma iso_fields_iso_form:
  assumes "y < 10000" "m < 100" "d < 100"
  shows "iso_fields (iso_form y m d) = Some (int y, m, d)"
proof -
  obtain a1 a2 a3 a4 where a: "dec 4 y = [a1, a2, a3, a4]" by (rule dec_4)
  obtain b1 b2 where b: "dec 2 m = [b1, b2]" by (rule dec_2)
  obtain c1 c2 where c: "dec 2 d = [c1, c2]" by (rule dec_2)
  have "read_nat [a1, a2, a3, a4] = Some y" using read_nat_dec [of 4 y] assms a by simp
  moreover have "read_nat [b1, b2] = Some m" using read_nat_dec [of 2 m] assms b by simp
  moreover have "read_nat [c1, c2] = Some d" using read_nat_dec [of 2 d] assms c by simp
  ultimately show ?thesis by (simp add: iso_form_def a b c iso_fields_def)
qed

lemma iso_fields_shape:
  assumes "iso_fields s = Some ymd"
  shows "\<exists>y1 y2 y3 y4 m1 m2 d1 d2 Y M D.
    s = [y1, y2, y3, y4, CHR ''-'', m1, m2, CHR ''-'', d1, d2] \<and>
    read_nat [y1, y2, y3, y4] = Some Y \<and> read_nat [m1, m2] = Some M \<and> read_nat [d1, d2] = Some D \<and>
    ymd = (int Y, M, D)"
  using assms unfolding iso_fields_def
  by (simp split: list.split_asm if_split_asm option.split_asm)

lemma iso_fields_form:
  assumes "iso_fields s = Some (y, m, d)"
  shows "s = iso_form (nat y) m d \<and> 0 \<le> y \<and> y < 10000 \<and> m < 100 \<and> d < 100"
proof -
  from iso_fields_shape [OF assms] obtain y1 y2 y3 y4 m1 m2 d1 d2 Y M D where
    s: "s = [y1, y2, y3, y4, CHR ''-'', m1, m2, CHR ''-'', d1, d2]" and
    r: "read_nat [y1, y2, y3, y4] = Some Y" "read_nat [m1, m2] = Some M" "read_nat [d1, d2] = Some D" and
    e: "(y, m, d) = (int Y, M, D)"
    by (elim exE conjE)
  have "[y1, y2, y3, y4] = dec 4 Y \<and> Y < 10 ^ 4" by (rule read_nat_inverse_length [OF r(1)]) simp
  moreover have "[m1, m2] = dec 2 M \<and> M < 10 ^ 2" by (rule read_nat_inverse_length [OF r(2)]) simp
  moreover have "[d1, d2] = dec 2 D \<and> D < 10 ^ 2" by (rule read_nat_inverse_length [OF r(3)]) simp
  ultimately have "s = iso_form Y M D" "Y < 10000" "M < 100" "D < 100"
    by (simp_all add: s iso_form_def)
  then show ?thesis using e by auto
qed

lemma parse_iso_date_year: "parse_iso_date s = Some p \<Longrightarrow> valid_ymd p \<and> 0 \<le> fst p \<and> fst p < 10000"
  using parse_iso_date_valid [of s p] iso_fields_form by blast

lemma parse_iso_date_form:
  assumes "canonical_date s" "parse_iso_date s = Some (y, m, d)"
  shows "s = iso_form (nat y) m d \<and> 0 \<le> y \<and> y < 10000 \<and> m < 100 \<and> d < 100 \<and> valid_ymd (y, m, d)"
  using assms iso_fields_form [of s y m d] by (simp add: parse_canonical canonical_date_def)

lemma valid_ymd_bounds: "valid_ymd (y, m, d) \<Longrightarrow> m < 100 \<and> d < 100"
  using days_in_month_le [of y m] by (simp add: valid_ymd_def)

lemma iso_date_string_form:
  assumes "valid_ymd (y, m, d)" "0 \<le> y" "y < 10000"
  shows "iso_date_string (y, m, d) = iso_form (nat y) m d"
proof -
  have "m < 10 ^ 2" "d < 10 ^ 2" using valid_ymd_bounds [OF assms(1)] by simp_all
  moreover have "nat y < 10 ^ 4" using assms by simp
  moreover have "0 < m" using assms(1) by (simp add: valid_ymd_def)
  ultimately show ?thesis
    by (simp add: iso_date_string_def iso_form_def pad_start_dec del: power_numeral)
qed

lemma append_le_same_length:
  "length a = length a' \<Longrightarrow> (a @ b \<le> a' @ b') \<longleftrightarrow> a < a' \<or> a = a' \<and> b \<le> b'"
  for a a' b b' :: "'a::linorder list"
proof (induction a arbitrary: a')
  case Nil
  then show ?case by simp
next
  case (Cons x xs)
  then obtain y ys where "a' = y # ys" "length xs = length ys" by (cases a') auto
  with Cons.IH show ?case by auto
qed

lemma dec_inj: "a < 10 ^ n \<Longrightarrow> b < 10 ^ n \<Longrightarrow> dec n a = dec n b \<longleftrightarrow> a = b"
  by (metis digits_acc_dec mod_less option.inject)

lemma dec_less: "a < 10 ^ n \<Longrightarrow> b < 10 ^ n \<Longrightarrow> dec n a < dec n b \<longleftrightarrow> a < b"
  by (simp add: less_le dec_le dec_inj)

lemma iso_form_le:
  assumes "y < 10 ^ 4" "y' < 10 ^ 4" "m < 10 ^ 2" "m' < 10 ^ 2" "d < 10 ^ 2" "d' < 10 ^ 2"
  shows "iso_form y m d \<le> iso_form y' m' d' \<longleftrightarrow> lex3_le (y, m, d) (y', m', d')"
  using assms
  by (auto simp add: iso_form_def append_le_same_length dec_le dec_less dec_inj
      lex3_le_def simp del: power_numeral)

lemma days_before_month_mono: "m \<le> m' \<Longrightarrow> days_before_month y m \<le> days_before_month y m'"
  by (rule lift_Suc_mono_le [of "days_before_month y"]) (simp_all add: days_before_month_Suc)

lemma days_before_13: "days_before_month y 13 = 365 + (if is_leap y then 1 else 0)"
  using days_before_month_Suc [of y 12] by (simp add: days_before_Dec)

lemma day_number_within_year:
  assumes "valid_ymd (y, m, d)"
  shows "day_from_year y \<le> day_number (y, m, d) \<and> day_number (y, m, d) < day_from_year (y + 1)"
proof -
  have m: "1 \<le> m" "m \<le> 12" "1 \<le> d" "d \<le> days_in_month y m" using assms by (simp_all add: valid_ymd_def)
  have "days_before_month y m + d \<le> days_before_month y (Suc m)"
    using m by (simp add: days_before_month_Suc)
  also have "\<dots> \<le> days_before_month y 13" using m by (simp add: days_before_month_mono)
  finally have "days_before_month y m + d \<le> 365 + (if is_leap y then 1 else 0)"
    by (simp add: days_before_13)
  then show ?thesis
    using m day_from_year_step [of "y + 1"] by (auto simp: day_number_def)
qed

lemma day_from_year_mono: "y \<le> y' \<Longrightarrow> day_from_year y \<le> day_from_year y'"
proof -
  have "day_from_year y \<le> day_from_year (y + int k)" for k
  proof (induction k)
    case 0
    then show ?case by simp
  next
    case (Suc k)
    then show ?case using day_from_year_step [of "y + int (Suc k)"] by simp
  qed
  moreover assume "y \<le> y'"
  then have "y' = y + int (nat (y' - y))" by simp
  ultimately show ?thesis by metis
qed

lemma day_number_strict_mono:
  assumes "valid_ymd p" "valid_ymd p'" "lex3_le p p'" "p \<noteq> p'"
  shows "day_number p < day_number p'"
proof -
  obtain y m d y' m' d' where p: "p = (y, m, d)" "p' = (y', m', d')" by (cases p, cases p') auto
  show ?thesis
  proof (cases "y < y'")
    case True
    then have "day_from_year (y + 1) \<le> day_from_year y'" by (simp add: day_from_year_mono)
    moreover have "day_number (y, m, d) < day_from_year (y + 1)"
      using day_number_within_year [of y m d] assms(1) p by simp
    moreover have "day_from_year y' \<le> day_number (y', m', d')"
      using day_number_within_year [of y' m' d'] assms(2) p by simp
    ultimately show ?thesis using p by simp
  next
    case False
    with assms(3, 4) p have y: "y' = y" and lt: "m < m' \<or> m = m' \<and> d < d'"
      by (auto simp: lex3_le_def)
    have v: "d \<le> days_in_month y m" "1 \<le> m" "1 \<le> d'" using assms(1, 2) p y by (simp_all add: valid_ymd_def)
    show ?thesis
    proof (cases "m < m'")
      case True
      have "days_before_month y m + d \<le> days_before_month y (Suc m)"
        using v by (simp add: days_before_month_Suc)
      also have "\<dots> \<le> days_before_month y m'" using True by (simp add: days_before_month_mono)
      finally show ?thesis using v p y by (simp add: day_number_def)
    next
      case False
      with lt show ?thesis using p y by (simp add: day_number_def)
    qed
  qed
qed

lemma day_number_le_iff:
  assumes "valid_ymd p" "valid_ymd p'"
  shows "day_number p \<le> day_number p' \<longleftrightarrow> lex3_le p p'"
proof -
  have total: "lex3_le p p' \<or> lex3_le p' p"
    by (auto simp: lex3_le_def split: prod.splits)
  show ?thesis
    using day_number_strict_mono [OF assms] day_number_strict_mono [OF assms(2, 1)] total
    by (cases "p = p'") auto
qed

lemma iso_parse_roundtrip:
  "canonical_date s \<Longrightarrow> parse_iso_date s = Some ymd \<Longrightarrow> iso_date_string ymd = s"
  by (cases ymd) (metis iso_date_string_form parse_iso_date_form)

lemma iso_fields_iso_date_string:
  "valid_ymd (y, m, d) \<Longrightarrow> 0 \<le> y \<Longrightarrow> y < 10000 \<Longrightarrow> iso_fields (iso_date_string (y, m, d)) = Some (y, m, d)"
  using valid_ymd_bounds [of y m d] by (simp add: iso_date_string_form iso_fields_iso_form)

lemma canonical_iso_date_string:
  "valid_ymd (y, m, d) \<Longrightarrow> 0 \<le> y \<Longrightarrow> y < 10000 \<Longrightarrow> canonical_date (iso_date_string (y, m, d))"
  by (simp add: canonical_date_def iso_fields_iso_date_string)

lemma parse_iso_roundtrip:
  "valid_ymd (y, m, d) \<Longrightarrow> 0 \<le> y \<Longrightarrow> y < 10000 \<Longrightarrow> parse_iso_date (iso_date_string (y, m, d)) = Some (y, m, d)"
  by (simp add: parse_canonical canonical_iso_date_string iso_fields_iso_date_string)

lemma date_string_le_iff:
  assumes "parse_iso_date s = Some p" "parse_iso_date s' = Some p'" "canonical_date s" "canonical_date s'"
  shows "s \<le> s' \<longleftrightarrow> day_number p \<le> day_number p'"
proof -
  obtain y m d y' m' d' where p: "p = (y, m, d)" "p' = (y', m', d')" by (cases p, cases p') auto
  note f = parse_iso_date_form [OF assms(3) assms(1) [unfolded p(1)]]
    parse_iso_date_form [OF assms(4) assms(2) [unfolded p(2)]]
  have s: "s = iso_form (nat y) m d" "s' = iso_form (nat y') m' d'" using f by simp_all
  have "s \<le> s' \<longleftrightarrow> lex3_le (nat y, m, d) (nat y', m', d')"
    unfolding s by (rule iso_form_le) (use f in auto)
  also have "\<dots> \<longleftrightarrow> lex3_le (y, m, d) (y', m', d')"
    using f by (auto simp: lex3_le_def)
  also have "\<dots> \<longleftrightarrow> day_number p \<le> day_number p'"
    using f p by (simp add: day_number_le_iff)
  finally show ?thesis .
qed

lemma canonical_parse: "canonical_date s \<Longrightarrow> parse_iso_date s \<noteq> None"
  by (cases "iso_fields s") (simp_all add: parse_canonical canonical_date_def)

lemma date_string_le_js_le:
  assumes "canonical_date s" "canonical_date s'"
  shows "s \<le> s' \<longleftrightarrow> js_le (js_date s) (js_date s')"
  using assms canonical_parse [OF assms(1)] canonical_parse [OF assms(2)] date_string_le_iff by (auto simp: js_ge_def js_date_def time_value_def ms_per_day_def)

end
