(* ===== verification/Aggregator.thy ===== *)
theory Aggregator
  imports Transaction Dates
begin

text \<open>
  The aggregates the dashboard and the charts show: \<open>updateDashboard\<close> and
  \<open>formatCurrency\<close> in \<open>src/script.js\<close>, and the data \<open>initializeCharts\<close> /
  \<open>updateCharts\<close> give to the pie, line and bar charts in \<open>src/charts.js\<close>
  (\<open>getLast7DaysData\<close>, \<open>getCategoryExpenseData\<close>).  The DOM is modelled by the
  values written into it: a money text is the pair of the currency symbol and the
  magnitude \<open>Math.abs(amount)\<close> that \<open>toLocaleString\<close> then prints (its digit
  grouping is presentation and is not modelled).
\<close>

section \<open>Totals\<close>

definition total_income :: "transaction list \<Rightarrow> rat" where
  "total_income ts = sum_amount (filter (\<lambda>t. tx_type t = Income) ts)"

definition total_expense :: "transaction list \<Rightarrow> rat" where
  "total_expense ts = sum_amount (filter (\<lambda>t. tx_type t = Expense) ts)"

record totals =
  income_total :: rat
  expense_total :: rat
  balance_total :: rat

definition dashboard_totals :: "transaction list \<Rightarrow> totals" where
  "dashboard_totals ts =
     (let income = total_income ts; expense = total_expense ts
      in \<lparr>income_total = income, expense_total = expense, balance_total = income - expense\<rparr>)"

section \<open>Currency text\<close>

definition currency_symbol :: "js_string \<Rightarrow> js_string" where
  "currency_symbol c =
     (if c = ''IDR'' then ''Rp ''
      else if c = ''USD'' then ''$''
      else if c = ''EUR'' then map char_of [226::nat, 130, 172]
      else ''undefined'')"

type_synonym money_text = "js_string \<times> rat"

definition format_currency :: "js_string \<Rightarrow> rat \<Rightarrow> money_text" where
  "format_currency cur x = (currency_symbol cur, \<bar>x\<bar>)"

section \<open>Savings progress\<close>

text \<open>\<open>Math.round\<close>: the nearest integer, halves rounded towards \<open>+\<infinity>\<close>.\<close>

definition js_round :: "rat \<Rightarrow> int" where
  "js_round x = \<lfloor>x + 1 / 2\<rfloor>"

definition savings_progress :: "rat \<Rightarrow> rat \<Rightarrow> rat option" where
  "savings_progress balance target =
     (if target > 0 then Some (min (balance / target * 100) 100) else None)"

section \<open>The dashboard\<close>

record dashboard =
  balance_text :: money_text
  income_text :: money_text
  expense_text :: money_text
  progress_text :: "int option"
  bar_width :: "rat option"
  target_text :: money_text

text \<open>
  \<open>updateDashboard\<close> without its final \<open>updateCharts()\<close> call (composed in the
  application theory): the progress fields are written only when the target is
  positive, and keep what they showed before otherwise.
\<close>

definition update_dashboard ::
  "js_string \<Rightarrow> rat \<Rightarrow> transaction list \<Rightarrow> dashboard \<Rightarrow> dashboard" where
  "update_dashboard cur target ts dash =
     (let tot = dashboard_totals ts;
          d1 = dash\<lparr>balance_text := format_currency cur (balance_total tot),
                    income_text := format_currency cur (income_total tot),
                    expense_text := format_currency cur (expense_total tot)\<rparr>;
          d2 = (case savings_progress (balance_total tot) target of
                  None \<Rightarrow> d1
                | Some p \<Rightarrow> d1\<lparr>progress_text := Some (js_round p), bar_width := Some p\<rparr>)
      in d2\<lparr>target_text := format_currency cur target\<rparr>)"

section \<open>The seven-day balance series\<close>

text \<open>
  \<open>getLast7DaysData\<close>: for \<open>i = 6, \<dots>, 0\<close> the label is the short Indonesian
  weekday of the local date \<open>i\<close> days ago, and the value is the balance of the
  transactions whose date string is \<open><=\<close> the UTC date string of that moment.
  \<open>local_today\<close> and \<open>utc_today\<close> are the local and UTC calendar dates of
  \<open>new Date()\<close>; moving back \<open>i\<close> days moves both back \<open>i\<close> days.
\<close>

definition weekday :: "ymd \<Rightarrow> nat" where
  "weekday ymd = nat ((day_number ymd + 4) mod 7)"

definition weekday_short_id :: "js_string list" where
  "weekday_short_id = [''Min'', ''Sen'', ''Sel'', ''Rab'', ''Kam'', ''Jum'', ''Sab'']"

definition day_balance :: "js_string \<Rightarrow> transaction list \<Rightarrow> rat" where
  "day_balance ds ts =
     (let day_tx = filter (\<lambda>t. date t \<le> ds) ts
      in sum_amount (filter (\<lambda>t. tx_type t = Income) day_tx)
         - sum_amount (filter (\<lambda>t. tx_type t = Expense) day_tx))"

definition last7_days_data ::
  "ymd \<Rightarrow> ymd \<Rightarrow> transaction list \<Rightarrow> js_string list \<times> rat list" where
  "last7_days_data local_today utc_today ts =
     (map (\<lambda>i. weekday_short_id ! weekday (days_back i local_today)) (rev [0..<7]),
      map (\<lambda>i. day_balance (iso_date_string (days_back i utc_today)) ts) (rev [0..<7]))"

section \<open>Expenses per category\<close>

definition expense_categories :: "js_string list" where
  "expense_categories = [''Makanan'', ''Transportasi'', ''Hiburan'', ''Pendidikan'', ''Tabungan'', ''Lainnya'']"

definition category_expense :: "transaction list \<Rightarrow> js_string \<Rightarrow> rat" where
  "category_expense ts cat = sum_amount (filter (\<lambda>t. tx_type t = Expense \<and> category t = cat) ts)"

definition category_amounts :: "js_string list \<Rightarrow> transaction list \<Rightarrow> rat list" where
  "category_amounts cats ts = map (category_expense ts) cats"

text \<open>The \<open>reduce\<close> that keeps the categories whose amount is \<open>> 0\<close>.\<close>

definition keep_positive :: "js_string list \<Rightarrow> rat list \<Rightarrow> js_string list \<times> rat list" where
  "keep_positive cats amounts =
     foldl (\<lambda>(labels, as) (cat, a). if a > 0 then (labels @ [cat], as @ [a]) else (labels, as))
       ([], []) (zip cats amounts)"

definition category_totals :: "js_string list \<Rightarrow> transaction list \<Rightarrow> js_string list \<times> rat list" where
  "category_totals cats ts = keep_positive cats (category_amounts cats ts)"

definition category_expense_data :: "transaction list \<Rightarrow> js_string list \<times> rat list" where
  "category_expense_data ts = category_totals expense_categories ts"

section \<open>Chart data\<close>

record chart_data =
  pie_values :: "rat list"
  line_labels :: "js_string list"
  line_values :: "rat list"
  bar_labels :: "js_string list"
  bar_values :: "rat list"

text \<open>
  The data \<open>initializeCharts\<close> builds and \<open>updateCharts\<close> writes into the
  three charts (colours are presentation and not modelled); \<open>updateCharts\<close>
  does nothing while the charts do not exist.
\<close>

definition chart_values :: "ymd \<Rightarrow> ymd \<Rightarrow> transaction list \<Rightarrow> chart_data" where
  "chart_values local_today utc_today ts =
     (let last7 = last7_days_data local_today utc_today ts; cat = category_expense_data ts
      in \<lparr>pie_values = [total_income ts, total_expense ts],
          line_labels = fst last7, line_values = snd last7,
          bar_labels = fst cat, bar_values = snd cat\<rparr>)"

definition update_charts ::
  "ymd \<Rightarrow> ymd \<Rightarrow> transaction list \<Rightarrow> chart_data option \<Rightarrow> chart_data option" where
  "update_charts local_today utc_today ts charts =
     (case charts of None \<Rightarrow> None | Some _ \<Rightarrow> Some (chart_values local_today utc_today ts))"

section \<open>Lemmas\<close>

lemmas aggregate_defs [model_defs] =
  total_income_def total_expense_def dashboard_totals_def savings_progress_def

lemma dashboard_totals_fields [simp]:
  "income_total (dashboard_totals ts) = total_income ts"
  "expense_total (dashboard_totals ts) = total_expense ts"
  "balance_total (dashboard_totals ts) = total_income ts - total_expense ts"
  by (simp_all add: dashboard_totals_def Let_def)

lemma keep_positive_foldl:
  "foldl (\<lambda>(labels, as) (cat, a). if a > 0 then (labels @ [cat], as @ [a]) else (labels, as)) (l0, a0) ps
   = (l0 @ map fst (filter (\<lambda>p. snd p > 0) ps), a0 @ map snd (filter (\<lambda>p. snd p > 0) ps))"
  by (induction ps arbitrary: l0 a0) auto

lemma keep_positive_filter:
  "keep_positive cats as =
     (map fst (filter (\<lambda>p. snd p > 0) (zip cats as)), map snd (filter (\<lambda>p. snd p > 0) (zip cats as)))"
  by (simp add: keep_positive_def keep_positive_foldl)

lemma zip_category_amounts:
  "zip cats (category_amounts cats ts) = map (\<lambda>c. (c, category_expense ts c)) cats"
  by (induction cats) (simp_all add: category_amounts_def)

lemma category_totals_filter:
  "category_totals cats ts =
     (filter (\<lambda>c. 0 < category_expense ts c) cats,
      map (category_expense ts) (filter (\<lambda>c. 0 < category_expense ts c) cats))"
  by (simp add: category_totals_def keep_positive_filter zip_category_amounts filter_map comp_def)

lemma total_income_append [simp]: "total_income (xs @ ys) = total_income xs + total_income ys"
  by (simp add: total_income_def)

lemma total_expense_append [simp]: "total_expense (xs @ ys) = total_expense xs + total_expense ys"
  by (simp add: total_expense_def)

lemma total_income_Cons [simp]:
  "total_income (t # ts) = (if tx_type t = Income then amount t else 0) + total_income ts"
  by (simp add: total_income_def)

lemma total_expense_Cons [simp]:
  "total_expense (t # ts) = (if tx_type t = Expense then amount t else 0) + total_expense ts"
  by (simp add: total_expense_def)

lemma total_income_Nil [simp]: "total_income [] = 0" and total_expense_Nil [simp]: "total_expense [] = 0"
  by (simp_all add: total_income_def total_expense_def)

lemma totals_mset:
  "mset xs = mset ys \<Longrightarrow> total_income xs = total_income ys \<and> total_expense xs = total_expense ys"
  by (simp add: total_income_def total_expense_def sum_amount_mset mset_filter)

lemma update_dashboard_texts [simp]:
  "balance_text (update_dashboard cur tg ts d) = format_currency cur (total_income ts - total_expense ts)"
  "income_text (update_dashboard cur tg ts d) = format_currency cur (total_income ts)"
  "expense_text (update_dashboard cur tg ts d) = format_currency cur (total_expense ts)"
  "target_text (update_dashboard cur tg ts d) = format_currency cur tg"
  by (simp_all add: update_dashboard_def Let_def split: option.split)

lemma update_dashboard_progress:
  "progress_text (update_dashboard cur tg ts d) =
     (case savings_progress (total_income ts - total_expense ts) tg of
        None \<Rightarrow> progress_text d | Some p \<Rightarrow> Some (js_round p))"
  "bar_width (update_dashboard cur tg ts d) =
     (case savings_progress (total_income ts - total_expense ts) tg of
        None \<Rightarrow> bar_width d | Some p \<Rightarrow> Some p)"
  by (simp_all add: update_dashboard_def Let_def split: option.split)

lemma savings_progress_sign:
  assumes "0 < (target::rat)"
  shows "min (b / target * 100) 100 < 0 \<longleftrightarrow> b < 0"
proof (cases "b < 0")
  case True
  then have "b / target * 100 < 0" using assms by (simp add: divide_neg_pos mult_neg_pos)
  then show ?thesis using True by simp
next
  case False
  then have "0 \<le> b / target * 100" using assms by simp
  then show ?thesis using False by simp
qed

lemma js_round_le: "x \<le> of_int k \<Longrightarrow> js_round x \<le> k"
  unfolding js_round_def by (simp add: floor_le_iff)

lemma js_round_of_int [simp]: "js_round (of_int k) = k"
  unfolding js_round_def by (simp add: floor_unique)

end
