(* ===== verification/Filtering.thy ===== *)
theory Filtering
  imports Transaction Dates
begin

text \<open>
  The filter engine: \<open>filterTransactionData\<close> in \<open>src/script.js\<close>, which
  selects the transactions the table, the PDF export and the spreadsheet export
  show, and \<open>populateMonthFilter\<close>, which builds the options of the month
  selector from the stored dates.  The five filter inputs are read from the DOM
  as strings; \<open>tz\<close> is the browser's time-zone offset in minutes east of UTC.
\<close>

record filter_spec =
  search_input :: js_string
  category_filter :: js_string
  month_filter :: js_string
  start_date_filter :: js_string
  end_date_filter :: js_string

definition empty_filter :: filter_spec where
  "empty_filter = \<lparr>search_input = [], category_filter = [], month_filter = [],
                   start_date_filter = [], end_date_filter = []\<rparr>"

section \<open>The four predicates\<close>

text \<open>\<open>searchTerm\<close> is the lower-cased search input.\<close>

definition matches_search :: "js_string \<Rightarrow> transaction \<Rightarrow> bool" where
  "matches_search term t \<longleftrightarrow>
     term = []
     \<or> (description t \<noteq> [] \<and> js_includes (js_lower (description t)) term)
     \<or> js_includes (js_lower (category t)) term"

definition matches_category :: "js_string \<Rightarrow> transaction \<Rightarrow> bool" where
  "matches_category cf t \<longleftrightarrow> cf = [] \<or> category t = cf"

definition matches_month :: "int \<Rightarrow> js_string \<Rightarrow> transaction \<Rightarrow> bool" where
  "matches_month tz mf t = (if mf \<noteq> [] then month_key tz (date t) = mf else True)"

definition matches_date_range :: "js_string \<Rightarrow> js_string \<Rightarrow> transaction \<Rightarrow> bool" where
  "matches_date_range sd ed t =
     (if sd \<noteq> [] \<or> ed \<noteq> [] then
        (let d = js_date (date t);
             r1 = (if sd \<noteq> [] then js_ge d (js_date sd) else True)
         in if ed \<noteq> [] then r1 \<and> js_le d (js_date ed) else r1)
      else True)"

definition filter_transaction_data ::
  "int \<Rightarrow> filter_spec \<Rightarrow> transaction list \<Rightarrow> transaction list" where
  "filter_transaction_data tz spec ts =
     (let term = js_lower (search_input spec)
      in filter (\<lambda>t. matches_search term t \<and> matches_category (category_filter spec) t
                     \<and> matches_month tz (month_filter spec) t
                     \<and> matches_date_range (start_date_filter spec) (end_date_filter spec) t) ts)"

section \<open>The month selector\<close>

text \<open>
  \<open>months\<close> is a \<open>Set\<close> of month keys, \<open>Array.from(months).sort().reverse()\<close>
  orders them by descending string order; the first option is the empty value
  (all months).  An option's label is
  \<open>`${monthNames[parseInt(month) - 1]} ${year}`\<close> for \<open>[year, month] =
  monthYear.split('-')\<close>.
\<close>

definition month_names :: "js_string list" where
  "month_names = [''Januari'', ''Februari'', ''Maret'', ''April'', ''Mei'', ''Juni'', ''Juli'',
                  ''Agustus'', ''September'', ''Oktober'', ''November'', ''Desember'']"

fun js_split :: "char \<Rightarrow> js_string \<Rightarrow> js_string list" where
  "js_split sep [] = [[]]"
| "js_split sep (c # cs) =
     (if c = sep then [] # js_split sep cs
      else (case js_split sep cs of p # ps \<Rightarrow> (c # p) # ps | [] \<Rightarrow> [[c]]))"

definition is_digit :: "char \<Rightarrow> bool" where
  "is_digit c \<longleftrightarrow> CHR ''0'' \<le> c \<and> c \<le> CHR ''9''"

text \<open>\<open>parseInt\<close> of a string of digits and letters: its leading digits, \<open>NaN\<close> without.\<close>

definition js_parse_int :: "js_string \<Rightarrow> nat option" where
  "js_parse_int s = read_nat (takeWhile is_digit s)"

text \<open>\<open>a[i]\<close> of an array: \<open>undefined\<close> (printed \<open>"undefined"\<close>) out of range.\<close>

definition js_index_str :: "js_string list \<Rightarrow> int \<Rightarrow> js_string" where
  "js_index_str xs i = (if 0 \<le> i \<and> i < int (length xs) then xs ! nat i else ''undefined'')"

definition month_label :: "js_string \<Rightarrow> js_string" where
  "month_label my =
     (let parts = js_split (CHR ''-'') my;
          year = (if 0 < length parts then parts ! 0 else ''undefined'');
          month = (if 1 < length parts then parts ! 1 else ''undefined'');
          name = (case js_parse_int month of
                    None \<Rightarrow> ''undefined''
                  | Some m \<Rightarrow> js_index_str month_names (int m - 1))
      in name @ '' '' @ year)"

definition month_keys :: "int \<Rightarrow> transaction list \<Rightarrow> js_string list" where
  "month_keys tz ts = remdups (map (\<lambda>t. month_key tz (date t)) ts)"

definition populate_month_filter :: "int \<Rightarrow> transaction list \<Rightarrow> (js_string \<times> js_string) list" where
  "populate_month_filter tz ts =
     ([], ''Semua Bulan'') # map (\<lambda>my. (my, month_label my)) (rev (sort (month_keys tz ts)))"

section \<open>Lemmas\<close>

definition matches_all :: "int \<Rightarrow> filter_spec \<Rightarrow> transaction \<Rightarrow> bool" where
  "matches_all tz spec t \<longleftrightarrow>
     matches_search (js_lower (search_input spec)) t \<and> matches_category (category_filter spec) t
     \<and> matches_month tz (month_filter spec) t
     \<and> matches_date_range (start_date_filter spec) (end_date_filter spec) t"

lemma filter_transaction_data_filter:
  "filter_transaction_data tz spec ts = filter (matches_all tz spec) ts"
  by (simp add: filter_transaction_data_def matches_all_def [abs_def])

lemma matches_all_empty [simp]: "matches_all tz empty_filter t"
  by (simp add: matches_all_def empty_filter_def matches_search_def matches_category_def
      matches_month_def matches_date_range_def)

lemma matches_date_range_start:
  "matches_date_range sd ed t \<Longrightarrow> sd \<noteq> [] \<Longrightarrow> js_ge (js_date (date t)) (js_date sd)"
  by (auto simp: matches_date_range_def Let_def split: if_splits)

lemma matches_date_range_end:
  "matches_date_range sd ed t \<Longrightarrow> ed \<noteq> [] \<Longrightarrow> js_le (js_date (date t)) (js_date ed)"
  by (auto simp: matches_date_range_def Let_def split: if_splits)

end
