(* ===== verification/Sorter.thy ===== *)
theory Sorter
  imports Transaction Dates
begin

text \<open>
  \<open>sortTable(column)\<close> in \<open>src/script.js\<close>: flip the remembered direction of
  the clicked column, sort the transaction list in place with a two-way
  comparator, and set the three header icons.

  The comparator never returns 0: for equal keys it returns \<open>-1\<close> whichever
  argument comes first, so it is not a consistent comparison function and
  ECMAScript leaves the resulting order implementation-defined.  The order
  \<open>Array.prototype.sort\<close> produces is modelled by \<open>js_sort\<close>: V8's sort places
  each element, in input order, into the already sorted prefix before the first
  element the comparator puts it before (\<open>cmp(x, y) < 0\<close>).  When every key
  is defined (for the date column: every date is valid) this predicate is
  monotone along the sorted prefix, so V8's binary search finds the same position
  as the linear scan written here.  With an invalid date every comparison with
  it is \<open>NaN\<close>-false, the predicate is no longer monotone, and the position
  V8's binary search picks may differ from the one \<open>js_sort\<close> computes: the
  lemmas that depend on the order are stated under \<open>valid_dates\<close> for the date
  column.
\<close>

datatype sort_dir = Asc | Desc

datatype sort_column = Date_col | Category_col | Amount_col

record sort_order =
  date_order :: sort_dir
  category_order :: sort_dir
  amount_order :: sort_dir

definition initial_sort_order :: sort_order where
  "initial_sort_order = \<lparr>date_order = Desc, category_order = Asc, amount_order = Desc\<rparr>"

fun get_order :: "sort_column \<Rightarrow> sort_order \<Rightarrow> sort_dir" where
  "get_order Date_col so = date_order so"
| "get_order Category_col so = category_order so"
| "get_order Amount_col so = amount_order so"

fun set_order :: "sort_column \<Rightarrow> sort_dir \<Rightarrow> sort_order \<Rightarrow> sort_order" where
  "set_order Date_col d so = so\<lparr>date_order := d\<rparr>"
| "set_order Category_col d so = so\<lparr>category_order := d\<rparr>"
| "set_order Amount_col d so = so\<lparr>amount_order := d\<rparr>"

text \<open>\<open>currentOrder === 'asc' ? 'desc' : 'asc'\<close>\<close>

definition toggle_dir :: "sort_dir \<Rightarrow> sort_dir" where
  "toggle_dir d = (if d = Asc then Desc else Asc)"

section \<open>The comparator\<close>

text \<open>
  \<open>A > B\<close> for the column's values: \<open>Date\<close> objects (time values, \<open>NaN\<close>
  compares false), lower-cased category strings (\<open>(a.category || '')\<close> is the
  category itself, \<open>''\<close> included), and amounts.
\<close>

fun key_gt :: "sort_column \<Rightarrow> transaction \<Rightarrow> transaction \<Rightarrow> bool" where
  "key_gt Date_col a b = js_gt (js_date (date a)) (js_date (date b))"
| "key_gt Category_col a b = (js_lower (category b) < js_lower (category a))"
| "key_gt Amount_col a b = (amount b < amount a)"

text \<open>\<open>newOrder === 'asc' ? (A > B ? 1 : -1) : (A < B ? 1 : -1)\<close>; \<open>A < B\<close> is \<open>B > A\<close>.\<close>

definition sort_compare :: "sort_column \<Rightarrow> sort_dir \<Rightarrow> transaction \<Rightarrow> transaction \<Rightarrow> int" where
  "sort_compare col d a b =
     (if d = Asc then (if key_gt col a b then 1 else -1) else (if key_gt col b a then 1 else -1))"

text \<open>Two transactions the column cannot tell apart.\<close>

fun same_key :: "sort_column \<Rightarrow> transaction \<Rightarrow> transaction \<Rightarrow> bool" where
  "same_key Date_col a b = (js_date (date a) = js_date (date b))"
| "same_key Category_col a b = (js_lower (category a) = js_lower (category b))"
| "same_key Amount_col a b = (amount a = amount b)"

section \<open>\<open>Array.prototype.sort\<close>\<close>

fun js_insert :: "('a \<Rightarrow> 'a \<Rightarrow> int) \<Rightarrow> 'a \<Rightarrow> 'a list \<Rightarrow> 'a list" where
  "js_insert cmp x [] = [x]"
| "js_insert cmp x (y # ys) = (if cmp x y < 0 then x # y # ys else y # js_insert cmp x ys)"

definition js_sort :: "('a \<Rightarrow> 'a \<Rightarrow> int) \<Rightarrow> 'a list \<Rightarrow> 'a list" where
  "js_sort cmp xs = foldl (\<lambda>acc x. js_insert cmp x acc) [] xs"

section \<open>\<open>sortTable\<close>\<close>

datatype sort_icon = Icon_up | Icon_down | Icon_both

definition sort_icon_for :: "sort_column \<Rightarrow> sort_dir \<Rightarrow> sort_column \<Rightarrow> sort_icon" where
  "sort_icon_for clicked d col = (if col = clicked then (if d = Asc then Icon_up else Icon_down) else Icon_both)"

definition sort_table ::
  "sort_column \<Rightarrow> sort_order \<Rightarrow> transaction list \<Rightarrow> sort_order \<times> transaction list" where
  "sort_table col so ts =
     (let new_order = toggle_dir (get_order col so)
      in (set_order col new_order so, js_sort (sort_compare col new_order) ts))"

section \<open>Order predicates\<close>

text \<open>\<open>in_order col d a b\<close>: \<open>a\<close> may precede \<open>b\<close> when sorting \<open>col\<close> in direction \<open>d\<close>.\<close>

definition in_order :: "sort_column \<Rightarrow> sort_dir \<Rightarrow> transaction \<Rightarrow> transaction \<Rightarrow> bool" where
  "in_order col d a b \<longleftrightarrow> \<not> (if d = Asc then key_gt col a b else key_gt col b a)"

definition valid_dates :: "transaction list \<Rightarrow> bool" where
  "valid_dates ts \<longleftrightarrow> (\<forall>t \<in> set ts. js_date (date t) \<noteq> None)"

section \<open>Lemmas on \<open>js_sort\<close>\<close>

lemma mset_js_insert [simp]: "mset (js_insert cmp x xs) = add_mset x (mset xs)"
  by (induction xs) auto

lemma set_js_insert [simp]: "set (js_insert cmp x xs) = insert x (set xs)"
  by (metis mset_js_insert set_mset_add_mset_insert set_mset_mset)

lemma mset_js_sort_acc:
  "mset (foldl (\<lambda>acc x. js_insert cmp x acc) acc0 xs) = mset acc0 + mset xs"
  by (induction xs arbitrary: acc0) auto

lemma mset_js_sort [simp]: "mset (js_sort cmp xs) = mset xs"
  by (simp add: js_sort_def mset_js_sort_acc)

lemma filter_js_insert:
  assumes "\<forall>y \<in> set acc. P x \<longrightarrow> P y \<longrightarrow> cmp x y < 0"
  shows "filter P (js_insert cmp x acc) = (if P x then x # filter P acc else filter P acc)"
  using assms by (induction acc) auto

lemma filter_js_sort_acc:
  assumes "\<forall>x y. P x \<longrightarrow> P y \<longrightarrow> cmp x y < 0"
  shows "filter P (foldl (\<lambda>acc x. js_insert cmp x acc) acc0 xs) = rev (filter P xs) @ filter P acc0"
  using assms by (induction xs arbitrary: acc0) (simp_all add: filter_js_insert)

lemma filter_js_sort:
  "\<forall>x y. P x \<longrightarrow> P y \<longrightarrow> cmp x y < 0 \<Longrightarrow> filter P (js_sort cmp xs) = rev (filter P xs)"
  by (simp add: js_sort_def filter_js_sort_acc)

lemma sorted_js_insert:
  assumes agree: "\<forall>x \<in> S. \<forall>y \<in> S. cmp x y < 0 \<longleftrightarrow> le x y"
    and total: "\<forall>x \<in> S. \<forall>y \<in> S. le x y \<or> le y x"
    and trans: "\<forall>a \<in> S. \<forall>b \<in> S. \<forall>c \<in> S. le a b \<longrightarrow> le b c \<longrightarrow> le a c"
    and x: "x \<in> S"
  shows "set acc \<subseteq> S \<Longrightarrow> sorted_wrt le acc \<Longrightarrow> sorted_wrt le (js_insert cmp x acc)"
proof (induction acc)
  case Nil
  then show ?case by simp
next
  case (Cons y ys)
  have y: "y \<in> S" and ys: "set ys \<subseteq> S" using Cons.prems(1) by auto
  have yz: "\<forall>z \<in> set ys. le y z" and sys: "sorted_wrt le ys" using Cons.prems(2) by auto
  show ?case
  proof (cases "cmp x y < 0")
    case True
    with agree x y have xy: "le x y" by blast
    have "\<forall>z \<in> set ys. le x z"
    proof
      fix z assume z: "z \<in> set ys"
      with yz have "le y z" by blast
      with xy x y z ys trans show "le x z" by blast
    qed
    with True xy sys yz show ?thesis by simp
  next
    case False
    with agree total x y have yx: "le y x" by blast
    have "sorted_wrt le (js_insert cmp x ys)" using ys sys by (rule Cons.IH)
    with False yx yz show ?thesis by simp
  qed
qed

lemma sorted_js_sort_acc:
  assumes agree: "\<forall>x \<in> S. \<forall>y \<in> S. cmp x y < 0 \<longleftrightarrow> le x y"
    and total: "\<forall>x \<in> S. \<forall>y \<in> S. le x y \<or> le y x"
    and trans: "\<forall>a \<in> S. \<forall>b \<in> S. \<forall>c \<in> S. le a b \<longrightarrow> le b c \<longrightarrow> le a c"
  shows "set acc \<subseteq> S \<Longrightarrow> set xs \<subseteq> S \<Longrightarrow> sorted_wrt le acc \<Longrightarrow>
         sorted_wrt le (foldl (\<lambda>acc x. js_insert cmp x acc) acc xs)"
proof (induction xs arbitrary: acc)
  case Nil
  then show ?case by simp
next
  case (Cons x xs)
  have x: "x \<in> S" using Cons.prems(2) by simp
  have "sorted_wrt le (js_insert cmp x acc)"
    using sorted_js_insert [OF agree total trans x] Cons.prems(1,3) by blast
  moreover have "set (js_insert cmp x acc) \<subseteq> S" using Cons.prems(1) x by simp
  ultimately show ?case using Cons.prems(2) by (simp add: Cons.IH)
qed

lemma sorted_js_sort:
  assumes "\<forall>x \<in> set xs. \<forall>y \<in> set xs. cmp x y < 0 \<longleftrightarrow> le x y"
    and "\<forall>x \<in> set xs. \<forall>y \<in> set xs. le x y \<or> le y x"
    and "\<forall>a \<in> set xs. \<forall>b \<in> set xs. \<forall>c \<in> set xs. le a b \<longrightarrow> le b c \<longrightarrow> le a c"
  shows "sorted_wrt le (js_sort cmp xs)"
  unfolding js_sort_def by (rule sorted_js_sort_acc [OF assms]) simp_all

section \<open>Lemmas on \<open>sortTable\<close>\<close>

lemma sort_compare_neg: "sort_compare col d a b < 0 \<longleftrightarrow> in_order col d a b"
  by (simp add: sort_compare_def in_order_def)

lemma key_gt_same_key: "same_key col a b \<Longrightarrow> \<not> key_gt col a b \<and> \<not> key_gt col b a"
  by (cases col) (auto simp: js_gt_def split: option.splits)

lemma sort_compare_same_key: "same_key col a b \<Longrightarrow> sort_compare col d a b < 0"
  by (simp add: sort_compare_def key_gt_same_key)

lemma same_key_trans: "same_key col v a \<Longrightarrow> same_key col v b \<Longrightarrow> same_key col a b"
  by (cases col) simp_all

lemma js_sort_ties_reversed:
  "filter (same_key col v) (js_sort (sort_compare col d) ts) = rev (filter (same_key col v) ts)"
  by (rule filter_js_sort) (blast intro: sort_compare_same_key same_key_trans)

lemma in_order_total: "in_order col d a b \<or> in_order col d b a"
  by (cases col) (auto simp: in_order_def js_gt_def split: option.splits)

lemma in_order_trans:
  assumes "col = Date_col \<longrightarrow> js_date (date a) \<noteq> None \<and> js_date (date b) \<noteq> None \<and> js_date (date c) \<noteq> None"
  shows "in_order col d a b \<Longrightarrow> in_order col d b c \<Longrightarrow> in_order col d a c"
  using assms by (cases col) (auto simp: in_order_def js_gt_def split: option.splits if_splits)

lemma js_sort_in_order:
  assumes "col = Date_col \<longrightarrow> valid_dates ts"
  shows "sorted_wrt (in_order col d) (js_sort (sort_compare col d) ts)"
proof (rule sorted_js_sort)
  show "\<forall>x \<in> set ts. \<forall>y \<in> set ts. sort_compare col d x y < 0 \<longleftrightarrow> in_order col d x y"
    by (simp add: sort_compare_neg)
  show "\<forall>x \<in> set ts. \<forall>y \<in> set ts. in_order col d x y \<or> in_order col d y x"
    by (simp add: in_order_total)
  show "\<forall>a \<in> set ts. \<forall>b \<in> set ts. \<forall>c \<in> set ts.
          in_order col d a b \<longrightarrow> in_order col d b c \<longrightarrow> in_order col d a c"
  proof (intro ballI impI)
    fix a b c
    assume abc: "a \<in> set ts" "b \<in> set ts" "c \<in> set ts"
      and ab: "in_order col d a b" and bc: "in_order col d b c"
    have "col = Date_col \<longrightarrow> js_date (date a) \<noteq> None \<and> js_date (date b) \<noteq> None \<and> js_date (date c) \<noteq> None"
      using assms abc by (simp add: valid_dates_def)
    then show "in_order col d a c" using ab bc by (rule in_order_trans)
  qed
qed

lemma js_insert_insort_key:
  "\<forall>y \<in> set zs. cmp x y < 0 \<longleftrightarrow> k x \<le> k y \<Longrightarrow> js_insert cmp x zs = insort_key k x zs"
  by (induction zs) auto

lemma js_sort_acc_sort_key:
  assumes "\<forall>x \<in> S. \<forall>y \<in> S. cmp x y < 0 \<longleftrightarrow> k x \<le> k y"
  shows "set acc \<subseteq> S \<Longrightarrow> set xs \<subseteq> S \<Longrightarrow>
         foldl (\<lambda>acc x. js_insert cmp x acc) acc xs = foldr (insort_key k) (rev xs) acc"
proof (induction xs arbitrary: acc)
  case Nil
  then show ?case by simp
next
  case (Cons x xs)
  have "js_insert cmp x acc = insort_key k x acc"
    using Cons.prems assms by (intro js_insert_insort_key) auto
  moreover have "set (insort_key k x acc) \<subseteq> S" using Cons.prems by (simp add: set_insort_key)
  ultimately show ?case using Cons.prems by (simp add: Cons.IH)
qed

lemma js_sort_sort_key:
  assumes "\<forall>x \<in> set xs. \<forall>y \<in> set xs. cmp x y < 0 \<longleftrightarrow> k x \<le> k y"
  shows "js_sort cmp xs = sort_key k (rev xs)"
  unfolding js_sort_def sort_key_def by (rule js_sort_acc_sort_key [OF assms]) simp_all

lemma sort_amount_asc: "js_sort (sort_compare Amount_col Asc) xs = sort_key amount (rev xs)"
  by (rule js_sort_sort_key) (auto simp: sort_compare_def)

lemma sort_category_asc:
  "js_sort (sort_compare Category_col Asc) xs = sort_key (\<lambda>t. js_lower (category t)) (rev xs)"
  by (rule js_sort_sort_key) (auto simp: sort_compare_def)

lemma js_sort_rev_sort_key:
  assumes agree: "\<forall>x \<in> set xs. \<forall>y \<in> set xs. cmp x y < 0 \<longleftrightarrow> k y \<le> k x"
    and ties: "\<forall>x y. k x = k y \<longrightarrow> cmp x y < 0"
  shows "js_sort cmp xs = rev (sort_key k xs)"
proof -
  let ?ys = "rev (js_sort cmp xs)"
  have "sort_key k xs = ?ys"
  proof (rule properties_for_sort_key)
    show "mset ?ys = mset xs" by simp
    show "filter (\<lambda>y. k x = k y) ?ys = filter (\<lambda>y. k x = k y) xs" for x
    proof -
      have "filter (\<lambda>y. k x = k y) (js_sort cmp xs) = rev (filter (\<lambda>y. k x = k y) xs)"
        by (rule filter_js_sort) (use ties in auto)
      then show ?thesis by (metis rev_filter rev_rev_ident)
    qed
    have "sorted_wrt (\<lambda>a b. k b \<le> k a) (js_sort cmp xs)"
      by (rule sorted_js_sort) (use agree in auto)
    then show "sorted (map k ?ys)"
      by (simp add: sorted_map sorted_wrt_rev)
  qed
  then show ?thesis by simp
qed

lemma sort_amount_desc: "js_sort (sort_compare Amount_col Desc) xs = rev (sort_key amount xs)"
  by (rule js_sort_rev_sort_key) (auto simp: sort_compare_def)

lemma sort_category_desc:
  "js_sort (sort_compare Category_col Desc) xs = rev (sort_key (\<lambda>t. js_lower (category t)) xs)"
  by (rule js_sort_rev_sort_key) (auto simp: sort_compare_def)

lemma get_set_order [simp]: "get_order c (set_order c d so) = d"
  by (cases c) simp_all

lemma get_set_order_other [simp]: "c' \<noteq> c \<Longrightarrow> get_order c' (set_order c d so) = get_order c' so"
  by (cases c; cases c') simp_all

lemma toggle_dir_neq [simp]: "toggle_dir d \<noteq> d"
  by (cases d) (simp_all add: toggle_dir_def)

lemma toggle_toggle [simp]: "toggle_dir (toggle_dir d) = d"
  by (cases d) (simp_all add: toggle_dir_def)
end
