(* ===== verification/DailySeries.thy ===== *)
theory DailySeries
  imports Aggregator Sorter DateText
begin

text \<open>
  The specification's \<open>dailySeries(today, days)\<close>: for each of the \<open>days\<close>
  calendar days ending today, oldest first, the balance of all transactions whose
  date is on or before that day, comparing dates as dates.  The code compares the
  date strings instead (\<open>t.date <= dateStr\<close> in \<open>getLast7DaysData\<close>); the lemmas
  below show the two agree when every stored date is canonical, a day of the
  calendar written as a date input writes it.
\<close>

definition canonical_dates :: "transaction list \<Rightarrow> bool" where
  "canonical_dates ts \<longleftrightarrow> (\<forall>t \<in> set ts. canonical_date (date t))"

definition balance_as_of :: "ymd \<Rightarrow> transaction list \<Rightarrow> rat" where
  "balance_as_of day ts =
     (let kept = filter (\<lambda>t. js_le (js_date (date t)) (Some (time_value day))) ts
      in total_income kept - total_expense kept)"

definition daily_series :: "ymd \<Rightarrow> nat \<Rightarrow> transaction list \<Rightarrow> rat list" where
  "daily_series today n ts = map (\<lambda>i. balance_as_of (days_back i today) ts) (rev [0..<n])"

section \<open>Lemmas\<close>

lemma js_date_iso:
  "valid_ymd (y, m, d) \<Longrightarrow> 0 \<le> y \<Longrightarrow> y < 10000 \<Longrightarrow> js_date (iso_date_string (y, m, d)) = Some (time_value (y, m, d))"
  by (simp add: js_date_def parse_iso_roundtrip)

lemma day_balance_as_of:
  assumes "canonical_dates ts" "valid_ymd u" "0 \<le> fst u" "fst u < 10000"
  shows "day_balance (iso_date_string u) ts = balance_as_of u ts"
proof -
  obtain y m d where u: "u = (y, m, d)" by (cases u) auto
  have iso: "js_date (iso_date_string u) = Some (time_value u)"
    using assms u js_date_iso by simp
  have p: "canonical_date (iso_date_string u)" using assms u by (simp add: canonical_iso_date_string)
  have "date t \<le> iso_date_string u \<longleftrightarrow> js_le (js_date (date t)) (Some (time_value u))"
    if "t \<in> set ts" for t
  proof -
    have "canonical_date (date t)" using assms(1) that by (simp add: canonical_dates_def)
    then show ?thesis using date_string_le_js_le [OF _ p] iso by simp
  qed
  then have "filter (\<lambda>t. date t \<le> iso_date_string u) ts
      = filter (\<lambda>t. js_le (js_date (date t)) (Some (time_value u))) ts"
    by (rule filter_cong [OF refl])
  then show ?thesis
    by (simp add: day_balance_def balance_as_of_def total_income_def total_expense_def Let_def)
qed

lemma fst_prev_day: "valid_ymd p \<Longrightarrow> fst p - 1 \<le> fst (prev_day p) \<and> fst (prev_day p) \<le> fst p"
  by (cases p) (auto simp: prev_day_def)

lemma fst_days_back_mono:
  "valid_ymd p \<Longrightarrow> i \<le> j \<Longrightarrow> fst (days_back j p) \<le> fst (days_back i p)"
proof (induction j)
  case 0
  then show ?case by simp
next
  case (Suc j)
  have "fst (days_back (Suc j) p) \<le> fst (days_back j p)"
    using fst_prev_day [OF valid_days_back [OF Suc.prems(1)]] by simp
  then show ?case using Suc by (cases "i = Suc j") auto
qed

lemma last7_values_daily_series:
  assumes "canonical_dates ts" "valid_ymd u" "0 \<le> fst (days_back 6 u)" "fst u < 10000"
  shows "snd (last7_days_data l u ts) = daily_series u 7 ts"
proof -
  have "day_balance (iso_date_string (days_back i u)) ts = balance_as_of (days_back i u) ts"
    if "i < 7" for i
  proof (rule day_balance_as_of [OF assms(1)])
    show "valid_ymd (days_back i u)" using assms(2) by (rule valid_days_back)
    show "0 \<le> fst (days_back i u)"
      using fst_days_back_mono [OF assms(2), of i 6] that assms(3) by simp
    show "fst (days_back i u) < 10000"
      using fst_days_back_mono [OF assms(2), of 0 i] assms(4) by simp
  qed
  then show ?thesis by (simp add: last7_days_data_def daily_series_def)
qed

end
