(* ===== verification/MonthKeys.thy ===== *)
theory MonthKeys
  imports Filtering DateText
begin

text \<open>
  The month keys of \<open>filterTransactionData\<close> and \<open>populateMonthFilter\<close> and the
  format of the value an \<open><input type="month">\<close> or the month selector yields,
  \<open>YYYY-MM\<close>: four digits, a hyphen, two digits of a month 01 to 12.
\<close>

definition month_value_ok :: "js_string \<Rightarrow> bool" where
  "month_value_ok k =
     (case js_split (CHR ''-'') k of
        [ys, ms] \<Rightarrow> length ys = 4 \<and> length ms = 2 \<and>
          (case (read_nat ys, read_nat ms) of (Some y, Some m) \<Rightarrow> 1 \<le> m \<and> m \<le> 12 | _ \<Rightarrow> False)
      | _ \<Rightarrow> False)"

section \<open>Lemmas\<close>

lemma digit_char_not_hyphen: "d < 10 \<Longrightarrow> digit_char d \<noteq> CHR ''-''"
proof
  assume d: "d < 10" and e: "digit_char d = CHR ''-''"
  have "(of_char (digit_char d) :: nat) = of_char (CHR ''-'')" using e by simp
  then show False using digit_char_of_char [OF d] by simp
qed

lemma hyphen_notin_dec: "CHR ''-'' \<notin> set (dec n a)"
  by (auto simp: dec_def) (metis digit_char_not_hyphen mod_less_divisor zero_less_numeral)

lemma js_split_no_sep: "c \<notin> set xs \<Longrightarrow> js_split c xs = [xs]"
  by (induction xs) auto

lemma js_split_append: "c \<notin> set xs \<Longrightarrow> js_split c (xs @ c # ys) = xs # js_split c ys"
  by (induction xs) auto

lemma is_digit_digit_char: "d < 10 \<Longrightarrow> is_digit (digit_char d)"
  by (simp add: is_digit_def less_eq_char_def digit_char_of_char)

lemma takeWhile_dec: "takeWhile is_digit (dec n a) = dec n a"
  by (simp add: dec_def takeWhile_eq_all_conv is_digit_digit_char)

lemma length_show_nat_4:
  fixes a :: nat
  assumes "1000 \<le> a" "a < 10000"
  shows "length (show_nat a) = 4"
proof -
  let ?L = "length (show_nat a)"
  have s: "a < 10 ^ ?L" "?L = 1 \<or> 10 ^ (?L - 1) \<le> a" using show_nat_dec [of a] by simp_all
  have "(10::nat) ^ 3 < 10 ^ ?L" using assms(1) s(1) by simp
  then have L: "3 < ?L" using power_strict_increasing_iff [of "10::nat" 3 ?L] by simp
  then have "(10::nat) ^ (?L - 1) < 10 ^ 4" using s(2) assms(2) by auto
  then have "?L - 1 < 4" using power_strict_increasing_iff [of "10::nat" "?L - 1" 4] by simp
  with L show ?thesis by simp
qed

lemma show_int_dec4: "1000 \<le> y \<Longrightarrow> y < 10000 \<Longrightarrow> show_int y = dec 4 (nat y)"
  using show_nat_dec [of "nat y"] length_show_nat_4 [of "nat y"] by (simp add: show_int_def)

lemma month_value_ok_dec:
  "y < 10 ^ 4 \<Longrightarrow> 1 \<le> m \<Longrightarrow> m \<le> 12 \<Longrightarrow> month_value_ok (dec 4 y @ ''-'' @ dec 2 m)"
  by (simp add: month_value_ok_def js_split_append hyphen_notin_dec js_split_no_sep read_nat_dec)

lemma month_label_dec:
  assumes "1 \<le> m" "m \<le> 12"
  shows "month_label (dec 4 y @ ''-'' @ dec 2 m) = month_names ! (m - 1) @ '' '' @ dec 4 y"
proof -
  have "js_parse_int (dec 2 m) = Some m"
    using assms by (simp add: js_parse_int_def takeWhile_dec read_nat_dec)
  moreover have "js_index_str month_names (int m - 1) = month_names ! (m - 1)"
    using assms by (simp add: js_index_str_def month_names_def nat_diff_distrib)
  ultimately show ?thesis
    by (simp add: month_label_def js_split_append hyphen_notin_dec js_split_no_sep)
qed

lemma local_ymd_valid_year:
  assumes "valid_ymd p"
  shows "valid_ymd (local_ymd z p) \<and> fst (local_ymd z p) \<le> fst p"
proof -
  have "fst (prev_day p) \<le> fst p" by (cases p) (simp add: prev_day_def)
  then show ?thesis using assms valid_prev_day [OF assms] by (simp add: local_ymd_def)
qed

lemma month_key_form:
  assumes "parse_iso_date s = Some p" "local_ymd z p = (y, m, d)" "1000 \<le> y"
  shows "month_key z s = dec 4 (nat y) @ ''-'' @ dec 2 m \<and> 1 \<le> m \<and> m \<le> 12 \<and> y < 10000"
proof -
  obtain py pm pd where p: "p = (py, pm, pd)" by (cases p) auto
  have f: "valid_ymd p" "py < 10000" using parse_iso_date_year [OF assms(1)] p by simp_all
  have l: "valid_ymd (y, m, d)" "y \<le> py" using local_ymd_valid_year [OF f(1), of z] assms(2) p by simp_all
  then have m: "1 \<le> m" "m \<le> 12" "y < 10000" using f(2) by (simp_all add: valid_ymd_def)
  have "pad_start 2 (show_nat m) = dec 2 m" using m by (simp add: pad_start_dec)
  moreover have "show_int y = dec 4 (nat y)" using m assms(3) by (simp add: show_int_dec4)
  ultimately show ?thesis using assms(1, 2) m by (simp add: month_key_def)
qed

lemma populate_month_filter_shape:
  "hd (populate_month_filter z ts) = ([], ''Semua Bulan'')
   \<and> sorted_wrt (\<lambda>a b. b < a) (map fst (tl (populate_month_filter z ts)))
   \<and> set (map fst (tl (populate_month_filter z ts))) = (\<lambda>t. month_key z (date t)) ` set ts"
proof -
  have "sorted_wrt (<) (sort (month_keys z ts))"
    using strict_sorted_iff [of "sort (month_keys z ts)"] by (simp add: month_keys_def)
  then show ?thesis
    by (simp add: populate_month_filter_def comp_def sorted_wrt_rev month_keys_def)
qed

end
