(* ===== verification/Store.thy ===== *)
theory Store
  imports Aggregator Filtering Sorter
begin

text \<open>
  The application of \<open>src/script.js\<close>: the module-level state (\<open>transactions\<close>,
  \<open>savingsTarget\<close>, \<open>currentCurrency\<close>, \<open>isDarkMode\<close>,
  \<open>editingTransactionId\<close>, \<open>sortOrder\<close>), the part of the DOM the handlers
  write (dashboard, charts, table, month selector, modal) and the entries of
  \<open>localStorage\<close>, with one definition per handler and a step function over the
  user's events.  \<open>JSON.stringify\<close> / \<open>JSON.parse\<close> of the transaction list is
  taken to return the same list (the records hold strings and finite numbers).
\<close>

section \<open>State\<close>

record storage =
  stored_transactions :: "transaction list option"
  stored_target :: "rat option"
  stored_currency :: "js_string option"
  stored_dark :: "bool option"

definition empty_storage :: storage where
  "empty_storage = \<lparr>stored_transactions = None, stored_target = None,
                    stored_currency = None, stored_dark = None\<rparr>"

text \<open>What the browser supplies to a handler: the clock and the time zone.\<close>

record env =
  now_ms :: nat
  tz :: int
  local_today :: ymd
  utc_today :: ymd

record app_state =
  transactions :: "transaction list"
  savings_target :: rat
  current_currency :: js_string
  is_dark_mode :: bool
  editing_id :: "js_string option"
  sort_ord :: sort_order
  modal_open :: bool
  filters :: filter_spec
  dash :: dashboard
  charts :: "chart_data option"
  table :: "transaction list option"
  month_options :: "(js_string \<times> js_string) list"
  store :: storage

record form_data =
  form_type :: tx_type
  form_category :: js_string
  form_amount :: rat
  form_date :: js_string
  form_description :: js_string

section \<open>Rendering\<close>

text \<open>
  \<open>renderTransactionTable\<close>: the empty-list message (\<open>None\<close>) when there are no
  transactions at all, otherwise the rows of the filtered list.
\<close>

definition render_table :: "int \<Rightarrow> filter_spec \<Rightarrow> transaction list \<Rightarrow> transaction list option" where
  "render_table z spec ts = (if ts = [] then None else Some (filter_transaction_data z spec ts))"

definition render :: "env \<Rightarrow> app_state \<Rightarrow> app_state" where
  "render e st = st\<lparr>table := render_table (tz e) (filters st) (transactions st)\<rparr>"

text \<open>
  \<open>updateDashboard\<close>, which ends with \<open>updateCharts\<close>, and
  \<open>populateMonthFilter\<close>, whose \<open>innerHTML\<close> assignment replaces the options
  and so resets the selector to its first option, the empty value.
\<close>

definition refresh_dashboard :: "env \<Rightarrow> app_state \<Rightarrow> app_state" where
  "refresh_dashboard e st =
     st\<lparr>dash := update_dashboard (current_currency st) (savings_target st) (transactions st) (dash st),
        charts := update_charts (local_today e) (utc_today e) (transactions st) (charts st)\<rparr>"

definition refresh_month_filter :: "env \<Rightarrow> app_state \<Rightarrow> app_state" where
  "refresh_month_filter e st =
     st\<lparr>month_options := populate_month_filter (tz e) (transactions st),
        filters := (filters st)\<lparr>month_filter := []\<rparr>\<rparr>"

definition persist_transactions :: "app_state \<Rightarrow> app_state" where
  "persist_transactions st = st\<lparr>store := (store st)\<lparr>stored_transactions := Some (transactions st)\<rparr>\<rparr>"

text \<open>The tail every mutation shares: persist, dashboard, table, month selector.\<close>

definition after_mutation :: "env \<Rightarrow> app_state \<Rightarrow> app_state" where
  "after_mutation e st = refresh_month_filter e (render e (refresh_dashboard e (persist_transactions st)))"

section \<open>Loading (the global initialisers and \<open>initializeApp\<close>)\<close>

definition blank_dashboard :: dashboard where
  "blank_dashboard = \<lparr>balance_text = ([], 0), income_text = ([], 0), expense_text = ([], 0),
                      progress_text = None, bar_width = None, target_text = ([], 0)\<rparr>"

definition load_app :: "env \<Rightarrow> storage \<Rightarrow> app_state" where
  "load_app e s =
     (let st0 = \<lparr>transactions = (case stored_transactions s of None \<Rightarrow> [] | Some ts \<Rightarrow> ts),
                 savings_target = (case stored_target s of None \<Rightarrow> 0 | Some x \<Rightarrow> x),
                 current_currency = (case stored_currency s of None \<Rightarrow> ''IDR'' | Some c \<Rightarrow> if c = [] then ''IDR'' else c),
                 is_dark_mode = (stored_dark s = Some True),
                 editing_id = None, sort_ord = initial_sort_order, modal_open = False,
                 filters = empty_filter, dash = blank_dashboard, charts = None, table = None,
                 month_options = [], store = s\<rparr>;
          st1 = render e (refresh_dashboard e st0);
          st2 = st1\<lparr>charts := Some (chart_values (local_today e) (utc_today e) (transactions st1))\<rparr>
      in refresh_month_filter e st2)"

section \<open>Modal\<close>

definition open_add_modal :: "app_state \<Rightarrow> app_state" where
  "open_add_modal st = st\<lparr>editing_id := None, modal_open := True\<rparr>"

definition open_edit_modal :: "js_string \<Rightarrow> app_state \<Rightarrow> app_state" where
  "open_edit_modal i st =
     (if find (\<lambda>t. tx_id t = i) (transactions st) = None then st
      else st\<lparr>editing_id := Some i, modal_open := True\<rparr>)"

definition close_modal :: "app_state \<Rightarrow> app_state" where
  "close_modal st = st\<lparr>modal_open := False, editing_id := None\<rparr>"

section \<open>CRUD\<close>

text \<open>\<open>Array.prototype.findIndex\<close>: the first index that satisfies the predicate, or \<open>-1\<close>.\<close>

fun js_find_index :: "('a \<Rightarrow> bool) \<Rightarrow> 'a list \<Rightarrow> int" where
  "js_find_index p [] = -1"
| "js_find_index p (x # xs) = (if p x then 0 else (let i = js_find_index p xs in if i < 0 then -1 else i + 1))"

text \<open>\<open>{ ...t, ...formData }\<close>: every field but the id taken from the form.\<close>

definition merge_form :: "transaction \<Rightarrow> form_data \<Rightarrow> transaction" where
  "merge_form t fd =
     t\<lparr>tx_type := form_type fd, category := form_category fd, amount := form_amount fd,
       date := form_date fd, description := form_description fd\<rparr>"

definition new_transaction :: "nat \<Rightarrow> form_data \<Rightarrow> transaction" where
  "new_transaction now fd =
     \<lparr>tx_id = show_nat now, tx_type = form_type fd, category = form_category fd,
      amount = form_amount fd, date = form_date fd, description = form_description fd\<rparr>"

text \<open>
  \<open>transactions[index] = { ...transactions[index], ...formData }\<close>: with
  \<open>index = -1\<close> the assignment creates a property named \<open>"-1"\<close> on the array
  object, which is not an element: the list itself is unchanged.
\<close>

definition edit_transactions :: "js_string \<Rightarrow> form_data \<Rightarrow> transaction list \<Rightarrow> transaction list" where
  "edit_transactions i fd ts =
     (let index = js_find_index (\<lambda>t. tx_id t = i) ts
      in if index < 0 then ts else ts[nat index := merge_form (ts ! nat index) fd])"

text \<open>\<open>handleFormSubmit\<close>: \<open>if (editingTransactionId)\<close> tests a non-empty id.\<close>

definition handle_form_submit :: "env \<Rightarrow> form_data \<Rightarrow> app_state \<Rightarrow> app_state" where
  "handle_form_submit e fd st =
     (let ts' = (case editing_id st of
                   Some i \<Rightarrow> if i \<noteq> [] then edit_transactions i fd (transactions st)
                             else new_transaction (now_ms e) fd # transactions st
                 | None \<Rightarrow> new_transaction (now_ms e) fd # transactions st)
      in close_modal (after_mutation e (st\<lparr>transactions := ts'\<rparr>)))"

text \<open>\<open>deleteTransaction\<close>, after the confirmation dialog.\<close>

definition delete_transaction :: "env \<Rightarrow> js_string \<Rightarrow> bool \<Rightarrow> app_state \<Rightarrow> app_state" where
  "delete_transaction e i confirmed st =
     (if confirmed then after_mutation e (st\<lparr>transactions := filter (\<lambda>t. tx_id t \<noteq> i) (transactions st)\<rparr>)
      else st)"

section \<open>Sorting, filters, settings\<close>

definition sort_table_handler :: "env \<Rightarrow> sort_column \<Rightarrow> app_state \<Rightarrow> app_state" where
  "sort_table_handler e col st =
     (let (so, ts) = sort_table col (sort_ord st) (transactions st)
      in render e (st\<lparr>sort_ord := so, transactions := ts\<rparr>))"

definition filter_transactions :: "env \<Rightarrow> filter_spec \<Rightarrow> app_state \<Rightarrow> app_state" where
  "filter_transactions e spec st = render e (st\<lparr>filters := spec\<rparr>)"

text \<open>
  The input validator of \<open>setSavingsTarget\<close>: \<open>value === '' || value < 0\<close>
  rejects the value with a message (\<open>None\<close> stands for the empty input).
\<close>

definition target_validator :: "rat option \<Rightarrow> js_string option" where
  "target_validator v =
     (case v of None \<Rightarrow> Some ''Masukkan target yang valid!''
      | Some x \<Rightarrow> if x < 0 then Some ''Masukkan target yang valid!'' else None)"

definition set_savings_target :: "env \<Rightarrow> rat option \<Rightarrow> bool \<Rightarrow> app_state \<Rightarrow> app_state" where
  "set_savings_target e v confirmed st =
     (case (target_validator v, v) of
        (None, Some x) \<Rightarrow>
          if confirmed then
            refresh_dashboard e (st\<lparr>savings_target := x, store := (store st)\<lparr>stored_target := Some x\<rparr>\<rparr>)
          else st
      | _ \<Rightarrow> st)"

definition set_currency :: "env \<Rightarrow> js_string \<Rightarrow> app_state \<Rightarrow> app_state" where
  "set_currency e c st =
     (let st1 = st\<lparr>current_currency := c, store := (store st)\<lparr>stored_currency := Some c\<rparr>\<rparr>;
          st2 = render e (refresh_dashboard e st1)
      in st2\<lparr>charts := update_charts (local_today e) (utc_today e) (transactions st2) (charts st2)\<rparr>)"

definition toggle_dark_mode :: "env \<Rightarrow> app_state \<Rightarrow> app_state" where
  "toggle_dark_mode e st =
     (let d = \<not> is_dark_mode st
      in st\<lparr>is_dark_mode := d, store := (store st)\<lparr>stored_dark := Some d\<rparr>,
            charts := update_charts (local_today e) (utc_today e) (transactions st) (charts st)\<rparr>)"

section \<open>Events\<close>

datatype event =
    Open_add
  | Open_edit js_string
  | Close_modal
  | Submit form_data
  | Delete js_string bool
  | Sort sort_column
  | Set_filters filter_spec
  | Set_target "rat option" bool
  | Set_currency js_string
  | Toggle_dark
  | Reload

fun app_step :: "env \<Rightarrow> app_state \<Rightarrow> event \<Rightarrow> app_state" where
  "app_step e st Open_add = open_add_modal st"
| "app_step e st (Open_edit i) = open_edit_modal i st"
| "app_step e st Close_modal = close_modal st"
| "app_step e st (Submit fd) = handle_form_submit e fd st"
| "app_step e st (Delete i c) = delete_transaction e i c st"
| "app_step e st (Sort col) = sort_table_handler e col st"
| "app_step e st (Set_filters spec) = filter_transactions e spec st"
| "app_step e st (Set_target v c) = set_savings_target e v c st"
| "app_step e st (Set_currency c) = set_currency e c st"
| "app_step e st Toggle_dark = toggle_dark_mode e st"
| "app_step e st Reload = load_app e (store st)"

text \<open>
  Reachable states: a first load from empty storage, then events, each at a
  clock reading (\<open>Date.now()\<close>) later than every reading before.  The first
  argument is a bound strictly above every clock reading so far.
\<close>

inductive reach :: "nat \<Rightarrow> app_state \<Rightarrow> bool" where
  start: "reach (Suc (now_ms e)) (load_app e empty_storage)"
| step: "reach c st \<Longrightarrow> c \<le> now_ms e \<Longrightarrow> reach (Suc (now_ms e)) (app_step e st ev)"

text \<open>
  A sequence of events, each with the environment it happens in, and the condition
  that the clock readings increase along it from the bound \<open>c\<close>.
\<close>

fun app_run :: "app_state \<Rightarrow> (env \<times> event) list \<Rightarrow> app_state" where
  "app_run st [] = st"
| "app_run st ((e, ev) # evs) = app_run (app_step e st ev) evs"

fun clocked :: "nat \<Rightarrow> (env \<times> event) list \<Rightarrow> bool" where
  "clocked c [] = True"
| "clocked c ((e, ev) # evs) = (c \<le> now_ms e \<and> clocked (Suc (now_ms e)) evs)"

text \<open>Confirmed deletes of the given ids, one per clock tick from \<open>c\<close>.\<close>

fun delete_events :: "env \<Rightarrow> nat \<Rightarrow> js_string list \<Rightarrow> (env \<times> event) list" where
  "delete_events e c [] = []"
| "delete_events e c (i # idl) = (e\<lparr>now_ms := c\<rparr>, Delete i True) # delete_events e (Suc c) idl"

section \<open>Invariant\<close>

text \<open>
  Ids are distinct and each is the decimal string of a clock reading below the
  bound; the stored list is a permutation of the list in memory.
\<close>

definition ids_fresh :: "nat \<Rightarrow> js_string list \<Rightarrow> bool" where
  "ids_fresh c is \<longleftrightarrow> distinct is \<and> (\<forall>i \<in> set is. \<exists>n < c. i = show_nat n)"

definition stored_list :: "storage \<Rightarrow> transaction list" where
  "stored_list s = (case stored_transactions s of None \<Rightarrow> [] | Some ts \<Rightarrow> ts)"

definition app_inv :: "nat \<Rightarrow> app_state \<Rightarrow> bool" where
  "app_inv c st \<longleftrightarrow> ids_fresh c (ids (transactions st)) \<and> mset (stored_list (store st)) = mset (transactions st)"

section \<open>Lemmas\<close>

lemma transactions_views [simp]:
  "transactions (render e st) = transactions st"
  "transactions (refresh_dashboard e st) = transactions st"
  "transactions (refresh_month_filter e st) = transactions st"
  "transactions (persist_transactions st) = transactions st"
  "transactions (close_modal st) = transactions st"
  by (simp_all add: render_def refresh_dashboard_def refresh_month_filter_def
      persist_transactions_def close_modal_def)

lemma store_views [simp]:
  "store (render e st) = store st"
  "store (refresh_dashboard e st) = store st"
  "store (refresh_month_filter e st) = store st"
  "store (close_modal st) = store st"
  by (simp_all add: render_def refresh_dashboard_def refresh_month_filter_def close_modal_def)

lemma transactions_after_mutation [simp]: "transactions (after_mutation e st) = transactions st"
  by (simp add: after_mutation_def)

lemma stored_after_mutation [simp]: "stored_list (store (after_mutation e st)) = transactions st"
  by (simp add: after_mutation_def persist_transactions_def stored_list_def)

lemma js_find_index_range: "-1 \<le> js_find_index p xs \<and> js_find_index p xs < int (length xs)"
  by (induction xs) (auto simp: Let_def)

lemma js_find_index_found: "0 \<le> js_find_index p xs \<Longrightarrow> p (xs ! nat (js_find_index p xs))"
proof (induction xs)
  case Nil
  then show ?case by simp
next
  case (Cons x xs)
  show ?case
  proof (cases "p x")
    case True
    then show ?thesis by simp
  next
    case False
    with Cons.prems have j: "0 \<le> js_find_index p xs" by (auto simp: Let_def split: if_splits)
    then have "nat (js_find_index p xs + 1) = Suc (nat (js_find_index p xs))" by simp
    with False j Cons.IH show ?thesis by (simp add: Let_def)
  qed
qed

lemma ids_edit_transactions [simp]: "ids (edit_transactions i fd ts) = ids ts"
proof (cases "js_find_index (\<lambda>t. tx_id t = i) ts < 0")
  case True
  then show ?thesis by (simp add: edit_transactions_def)
next
  case False
  let ?k = "nat (js_find_index (\<lambda>t. tx_id t = i) ts)"
  have k: "?k < length ts" using False js_find_index_range [of "\<lambda>t. tx_id t = i" ts] by simp
  have "tx_id (merge_form (ts ! ?k) fd) = map tx_id ts ! ?k" using k by (simp add: merge_form_def)
  then show ?thesis using False by (simp add: edit_transactions_def ids_def map_update Let_def)
qed

lemma ids_fresh_mono: "ids_fresh c is \<Longrightarrow> c \<le> c' \<Longrightarrow> ids_fresh c' is"
  unfolding ids_fresh_def using less_le_trans by blast

lemma ids_fresh_mset: "mset is = mset is' \<Longrightarrow> ids_fresh c is \<longleftrightarrow> ids_fresh c is'"
proof -
  assume m: "mset is = mset is'"
  have d: "distinct is = distinct is'" by (rule mset_eq_imp_distinct_iff [OF m])
  have s: "set is = set is'" by (rule mset_eq_setD [OF m])
  show ?thesis unfolding ids_fresh_def d s ..
qed

lemma ids_fresh_Cons:
  assumes f: "ids_fresh c is" and c: "c \<le> now"
  shows "ids_fresh (Suc now) (show_nat now # is)"
proof -
  have below: "\<forall>i \<in> set is. \<exists>n < c. i = show_nat n" using f by (simp add: ids_fresh_def)
  have "show_nat now \<notin> set is"
  proof
    assume "show_nat now \<in> set is"
    with below obtain n where "n < c" "show_nat now = show_nat n" by blast
    with c show False by (simp add: show_nat_inj)
  qed
  moreover have "\<forall>i \<in> set is. \<exists>n < Suc now. i = show_nat n"
  proof
    fix i assume "i \<in> set is"
    then obtain n where n: "n < c" "i = show_nat n" using below by blast
    with c have "n < Suc now" by simp
    with n show "\<exists>n < Suc now. i = show_nat n" by blast
  qed
  ultimately show ?thesis using f by (auto simp: ids_fresh_def)
qed

lemma ids_fresh_filter: "ids_fresh c (ids ts) \<Longrightarrow> ids_fresh c (ids (filter P ts))"
proof -
  assume f: "ids_fresh c (ids ts)"
  then have "distinct (map tx_id (filter P ts))" by (simp add: ids_fresh_def ids_def distinct_map_filter)
  moreover have "set (map tx_id (filter P ts)) \<subseteq> set (map tx_id ts)" by auto
  ultimately show ?thesis using f unfolding ids_fresh_def ids_def by blast
qed

lemma ids_mset: "mset xs = mset ys \<Longrightarrow> mset (ids xs) = mset (ids ys)"
  by (simp add: ids_def)
lemma load_app_transactions [simp]: "transactions (load_app e s) = stored_list s"
  by (simp add: load_app_def Let_def stored_list_def)

lemma load_app_store [simp]: "store (load_app e s) = s"
  by (simp add: load_app_def Let_def)

lemma load_app_fields [simp]:
  "editing_id (load_app e s) = None"
  "sort_ord (load_app e s) = initial_sort_order"
  "modal_open (load_app e s) = False"
  "savings_target (load_app e s) = (case stored_target s of None \<Rightarrow> 0 | Some x \<Rightarrow> x)"
  by (simp_all add: load_app_def Let_def render_def refresh_dashboard_def refresh_month_filter_def)

lemma submit_effect:
  "transactions (handle_form_submit e fd st) =
     (case editing_id st of
        Some i \<Rightarrow> if i \<noteq> [] then edit_transactions i fd (transactions st)
                  else new_transaction (now_ms e) fd # transactions st
      | None \<Rightarrow> new_transaction (now_ms e) fd # transactions st)
   \<and> stored_list (store (handle_form_submit e fd st)) = transactions (handle_form_submit e fd st)"
  by (simp add: handle_form_submit_def Let_def)

lemma delete_effect:
  "transactions (delete_transaction e i c st) = (if c then filter (\<lambda>t. tx_id t \<noteq> i) (transactions st) else transactions st)
   \<and> stored_list (store (delete_transaction e i c st)) =
       (if c then transactions (delete_transaction e i c st) else stored_list (store st))"
  by (simp add: delete_transaction_def)

lemma sort_effect:
  "transactions (sort_table_handler e col st) =
     js_sort (sort_compare col (toggle_dir (get_order col (sort_ord st)))) (transactions st)
   \<and> store (sort_table_handler e col st) = store st"
  by (simp add: sort_table_handler_def sort_table_def Let_def)

lemma settings_transactions [simp]:
  "transactions (open_add_modal st) = transactions st"
  "transactions (open_edit_modal i st) = transactions st"
  "transactions (filter_transactions e f st) = transactions st"
  "transactions (set_savings_target e v b st) = transactions st"
  "transactions (set_currency e cur st) = transactions st"
  "transactions (toggle_dark_mode e st) = transactions st"
  by (simp_all add: open_add_modal_def open_edit_modal_def filter_transactions_def
      set_savings_target_def set_currency_def toggle_dark_mode_def Let_def split: option.splits)

lemma settings_stored [simp]:
  "stored_transactions (store (open_add_modal st)) = stored_transactions (store st)"
  "stored_transactions (store (open_edit_modal i st)) = stored_transactions (store st)"
  "stored_transactions (store (filter_transactions e f st)) = stored_transactions (store st)"
  "stored_transactions (store (set_savings_target e v b st)) = stored_transactions (store st)"
  "stored_transactions (store (set_currency e cur st)) = stored_transactions (store st)"
  "stored_transactions (store (toggle_dark_mode e st)) = stored_transactions (store st)"
  by (simp_all add: open_add_modal_def open_edit_modal_def filter_transactions_def
      set_savings_target_def set_currency_def toggle_dark_mode_def Let_def split: option.splits)

lemma new_transaction_id [simp]: "tx_id (new_transaction now fd) = show_nat now"
  by (simp add: new_transaction_def)

lemma app_step_inv:
  assumes inv: "app_inv c st" and clock: "c \<le> now_ms e"
  shows "app_inv (Suc (now_ms e)) (app_step e st ev)"
proof -
  from inv have fresh: "ids_fresh c (ids (transactions st))"
    and cons: "mset (stored_list (store st)) = mset (transactions st)"
    by (simp_all add: app_inv_def)
  have fresh': "ids_fresh (Suc (now_ms e)) (ids (transactions st))"
    using fresh by (rule ids_fresh_mono) (use clock in simp)
  show ?thesis
  proof (cases ev)
    case (Submit fd)
    have "ids_fresh (Suc (now_ms e)) (ids (transactions (handle_form_submit e fd st)))"
      using submit_effect [of e fd st] fresh' ids_fresh_Cons [OF fresh clock]
      by (auto split: option.splits)
    then show ?thesis using Submit submit_effect [of e fd st] by (simp add: app_inv_def)
  next
    case (Delete i conf)
    then show ?thesis using delete_effect [of e i conf st] fresh' cons
      by (auto simp: app_inv_def intro: ids_fresh_filter)
  next
    case (Sort col)
    then show ?thesis using sort_effect [of e col st] fresh' cons
      by (simp add: app_inv_def ids_fresh_mset [OF ids_mset [OF mset_js_sort]])
  next
    case Reload
    have "ids_fresh (Suc (now_ms e)) (ids (stored_list (store st)))"
      using fresh' ids_fresh_mset [OF ids_mset [OF cons]] by simp
    then show ?thesis using Reload by (simp add: app_inv_def)
  qed (use fresh' cons in \<open>simp_all add: app_inv_def stored_list_def\<close>)
qed

lemma app_inv_init: "app_inv (Suc (now_ms e)) (load_app e empty_storage)"
  by (simp add: app_inv_def ids_fresh_def stored_list_def empty_storage_def ids_def)

theorem reach_app_inv: "reach c st \<Longrightarrow> app_inv c st"
proof (induction rule: reach.induct)
  case (start e)
  show ?case by (rule app_inv_init)
next
  case (step c st e ev)
  then show ?case by (blast intro: app_step_inv)
qed
lemma merge_form_id [simp]: "tx_id (merge_form t fd) = tx_id t"
  by (simp add: merge_form_def)

lemma edit_transactions_Cons:
  "edit_transactions i fd (x # xs) =
     (if tx_id x = i then merge_form x fd # xs else x # edit_transactions i fd xs)"
  using js_find_index_range [of "\<lambda>t. tx_id t = i" xs]
  by (auto simp: edit_transactions_def Let_def nat_add_distrib)

lemma edit_transactions_Nil [simp]: "edit_transactions i fd [] = []"
  by (simp add: edit_transactions_def)

lemma edit_transactions_map:
  "distinct (Transaction.ids ts) \<Longrightarrow>
   edit_transactions i fd ts = map (\<lambda>t. if tx_id t = i then merge_form t fd else t) ts"
proof (induction ts)
  case Nil
  then show ?case by simp
next
  case (Cons x xs)
  show ?case
  proof (cases "tx_id x = i")
    case True
    from Cons.prems have "tx_id x \<notin> set (map tx_id xs)" by (simp add: ids_def)
    with True have "\<forall>t \<in> set xs. tx_id t \<noteq> i" by (metis image_eqI set_map)
    then have "map (\<lambda>t. if tx_id t = i then merge_form t fd else t) xs = xs"
      by (induction xs) auto
    with True show ?thesis by (simp add: edit_transactions_Cons)
  next
    case False
    with Cons show ?thesis by (simp add: edit_transactions_Cons)
  qed
qed
lemma after_mutation_views [simp]:
  "filters (after_mutation e st) = (filters st)\<lparr>month_filter := []\<rparr>"
  "table (after_mutation e st) = render_table (tz e) (filters st) (transactions st)"
  "savings_target (after_mutation e st) = savings_target st"
  "editing_id (after_mutation e st) = editing_id st"
  "dash (after_mutation e st) =
     update_dashboard (current_currency st) (savings_target st) (transactions st) (dash st)"
  by (simp_all add: after_mutation_def refresh_month_filter_def render_def refresh_dashboard_def
      persist_transactions_def)

lemma close_modal_views [simp]:
  "modal_open (close_modal st) = False"
  "editing_id (close_modal st) = None"
  "filters (close_modal st) = filters st"
  "table (close_modal st) = table st"
  by (simp_all add: close_modal_def)

lemma stored_list_load [simp]: "stored_list (store (load_app e s)) = stored_list s"
  by simp

lemma set_savings_target_cases:
  "set_savings_target e v c st =
     (case v of
        Some x \<Rightarrow> if 0 \<le> x \<and> c then
                    refresh_dashboard e (st\<lparr>savings_target := x, store := (store st)\<lparr>stored_target := Some x\<rparr>\<rparr>)
                  else st
      | None \<Rightarrow> st)"
  by (auto simp: set_savings_target_def target_validator_def split: option.split)

lemma refresh_dashboard_views [simp]:
  "savings_target (refresh_dashboard e st) = savings_target st"
  "is_dark_mode (refresh_dashboard e st) = is_dark_mode st"
  by (simp_all add: refresh_dashboard_def)

lemma reach_app_run: "reach c st \<Longrightarrow> clocked c evs \<Longrightarrow> \<exists>c'. reach c' (app_run st evs)"
proof (induction evs arbitrary: c st)
  case Nil
  then show ?case by auto
next
  case (Cons a evs)
  obtain e ev where a: "a = (e, ev)" by (cases a)
  have "reach (Suc (now_ms e)) (app_step e st ev)"
    using Cons.prems a by (auto intro: reach.step)
  then show ?case using Cons.IH Cons.prems a by simp
qed

lemma clocked_delete_events: "clocked c (delete_events e c idl)"
  by (induction idl arbitrary: c) simp_all

lemma transactions_delete_events:
  "transactions (app_run st (delete_events e c idl)) = filter (\<lambda>t. tx_id t \<notin> set idl) (transactions st)"
proof (induction idl arbitrary: c st)
  case Nil
  then show ?case by simp
next
  case (Cons i idl)
  then show ?case using delete_effect [of "e\<lparr>now_ms := c\<rparr>" i True st]
    by (simp add: filter_filter conj_commute)
qed

end
