(* ===== verification/Export.thy ===== *)
theory Export
  imports Store
begin

text \<open>
  The reports of \<open>src/export.js\<close>.  Both exports call
  \<open>filterTransactionData()\<close>, which reads the filter inputs of the page, so the
  rows are those of the filter state \<open>filters\<close> of the application; the PDF
  header copies the three totals from the dashboard's DOM.  The rendering libraries
  (html2pdf, XLSX) receive these values and are not modelled.  A date cell is
  \<open>new Date(t.date).toLocaleDateString('id-ID')\<close>: the local calendar date of the
  parsed time as day/month/year without padding, or \<open>Invalid Date\<close>.
\<close>

section \<open>Cells\<close>

definition local_date_text :: "int \<Rightarrow> js_string \<Rightarrow> js_string" where
  "local_date_text z s =
     (case parse_iso_date s of
        None \<Rightarrow> ''Invalid Date''
      | Some ymd \<Rightarrow>
          (case local_ymd z ymd of (y, m, d) \<Rightarrow> show_nat d @ ''/'' @ show_nat m @ ''/'' @ show_int y))"

definition description_cell :: "js_string \<Rightarrow> js_string" where
  "description_cell s = (if s = [] then ''-'' else s)"

section \<open>\<open>exportToExcel\<close>\<close>

record excel_row =
  tanggal :: js_string
  jenis :: js_string
  kategori :: js_string
  deskripsi :: js_string
  jumlah :: rat

definition excel_row_of :: "int \<Rightarrow> transaction \<Rightarrow> excel_row" where
  "excel_row_of z t =
     \<lparr>tanggal = local_date_text z (date t),
      jenis = (if tx_type t = Income then ''Pemasukan'' else ''Pengeluaran''),
      kategori = category t, deskripsi = description_cell (description t), jumlah = amount t\<rparr>"

definition export_excel :: "env \<Rightarrow> app_state \<Rightarrow> excel_row list" where
  "export_excel e st =
     map (excel_row_of (tz e)) (filter_transaction_data (tz e) (filters st) (transactions st))"

definition export_filename_date :: "env \<Rightarrow> js_string" where
  "export_filename_date e = iso_date_string (utc_today e)"

section \<open>\<open>exportToPDF\<close>\<close>

record pdf_row =
  pdf_date :: js_string
  pdf_category :: js_string
  pdf_description :: js_string
  pdf_sign :: char
  pdf_amount :: money_text

definition pdf_row_of :: "int \<Rightarrow> js_string \<Rightarrow> transaction \<Rightarrow> pdf_row" where
  "pdf_row_of z cur t =
     \<lparr>pdf_date = local_date_text z (date t), pdf_category = category t,
      pdf_description = description_cell (description t),
      pdf_sign = (if tx_type t = Income then CHR ''+'' else CHR ''-''),
      pdf_amount = format_currency cur (amount t)\<rparr>"

record pdf_report =
  pdf_balance :: money_text
  pdf_income :: money_text
  pdf_expense :: money_text
  pdf_rows :: "pdf_row list"

definition export_pdf :: "env \<Rightarrow> app_state \<Rightarrow> pdf_report" where
  "export_pdf e st =
     \<lparr>pdf_balance = balance_text (dash st), pdf_income = income_text (dash st),
      pdf_expense = expense_text (dash st),
      pdf_rows = map (pdf_row_of (tz e) (current_currency st))
                   (filter_transaction_data (tz e) (filters st) (transactions st))\<rparr>"

section \<open>Lemmas\<close>

lemma table_filter_transactions:
  "table (filter_transactions e spec st) =
     (if transactions st = [] then None
      else Some (filter_transaction_data (tz e) spec (transactions st)))"
  by (simp add: filter_transactions_def render_def render_table_def)

lemma filters_filter_transactions [simp]:
  "filters (filter_transactions e spec st) = spec"
  "transactions (filter_transactions e spec st) = transactions st"
  by (simp_all add: filter_transactions_def render_def)

lemma export_excel_filter:
  "export_excel e st =
     map (excel_row_of (tz e)) (filter (matches_all (tz e) (filters st)) (transactions st))"
  by (simp add: export_excel_def filter_transaction_data_filter)

lemma signed_sum_totals:
  "sum_list (map (\<lambda>t. if tx_type t = Income then amount t else - amount t) ts)
     = total_income ts - total_expense ts"
proof (induction ts)
  case Nil
  then show ?case by simp
next
  case (Cons t ts)
  then show ?case by (cases "tx_type t") simp_all
qed

lemma excel_signed_amount:
  "(if jenis (excel_row_of z t) = ''Pemasukan'' then jumlah (excel_row_of z t) else - jumlah (excel_row_of z t))
     = (if tx_type t = Income then amount t else - amount t)"
  by (cases "tx_type t") (simp_all add: excel_row_of_def)

end
