(* ===== verification/Pwa.thy ===== *)
theory Pwa
  imports Prelude
begin

text \<open>
  The progressive-web-app part of \<open>src/script.js\<close>: the install prompt
  (\<open>registerServiceWorker\<close>, the \<open>beforeinstallprompt\<close> listener,
  \<open>showInstallPrompt\<close>) and the offline indicator (\<open>setupOfflineDetection\<close>).
  The browser's asynchronous callbacks are events of a step function: the
  \<open>beforeinstallprompt\<close> event, the 3-second timer of
  \<open>showInstallPrompt\<close> firing, the user's answer to the dialog, the install
  prompt's \<open>userChoice\<close> settling, and the \<open>online\<close>/\<open>offline\<close> events.
  \<open>registerServiceWorker\<close> registers a \<open>blob:\<close> URL, which
  \<open>navigator.serviceWorker.register\<close> always rejects (only http and https
  scripts are accepted), so its \<open>then\<close> branch, the second caller of
  \<open>showInstallPrompt\<close>, never runs and the registration changes nothing here.
  A dialog opened by \<open>Swal.fire\<close> while another is shown closes the earlier
  one, whose promise then settles as not confirmed: its callback stores the
  dismissal.
  \<open>deferredPrompt\<close> is modelled by whether it holds an event; the
  \<open>pwaInstallDismissed\<close> entry of \<open>localStorage\<close> by a flag; the timers
  scheduled and not yet fired by their number.  A call on the \<open>null\<close> prompt
  throws a \<open>TypeError\<close> inside the dialog's callback: it is the error value of
  the step.
\<close>

record pwa_state =
  deferred :: bool
  dismissed :: bool
  timers :: nat
  dialog_open :: bool
  prompting :: bool
  online :: bool
  indicator_hidden :: bool

datatype pwa_error = Null_prompt

datatype pwa_event =
    Before_install_prompt
  | Timer_fired
  | Dialog_confirm
  | Dialog_cancel
  | User_choice
  | Connection bool

text \<open>\<open>showInstallPrompt\<close>: schedule the dialog when a prompt is held and it was not dismissed.\<close>

definition show_install_prompt :: "pwa_state \<Rightarrow> pwa_state" where
  "show_install_prompt st =
     (if deferred st \<and> \<not> dismissed st then st\<lparr>timers := Suc (timers st)\<rparr> else st)"

text \<open>
  \<open>setupOfflineDetection\<close> and \<open>updateOnlineStatus\<close>: the indicator is hidden
  exactly when the browser reports being online.
\<close>

definition update_online_status :: "bool \<Rightarrow> pwa_state \<Rightarrow> pwa_state" where
  "update_online_status on st = st\<lparr>online := on, indicator_hidden := on\<rparr>"

text \<open>
  The page load: no prompt held, no timer, the dismissal flag as stored, and the
  indicator set by the first \<open>updateOnlineStatus()\<close>.
\<close>

definition pwa_init :: "bool \<Rightarrow> bool \<Rightarrow> pwa_state" where
  "pwa_init was_dismissed on =
     update_online_status on
       \<lparr>deferred = False, dismissed = was_dismissed, timers = 0, dialog_open = False,
        prompting = False, online = on, indicator_hidden = False\<rparr>"

text \<open>
  One event.  A timer firing while a dialog is open replaces that dialog and so
  dismisses it.  An event that cannot occur in a state (a timer firing when none is
  scheduled, an answer without a dialog, a \<open>userChoice\<close> without a prompt) leaves
  the state unchanged.
\<close>

fun pwa_step :: "pwa_state \<Rightarrow> pwa_event \<Rightarrow> pwa_error + pwa_state" where
  "pwa_step st Before_install_prompt = Inr (show_install_prompt (st\<lparr>deferred := True\<rparr>))"
| "pwa_step st Timer_fired =
     Inr (if timers st = 0 then st
          else if dialog_open st then st\<lparr>timers := timers st - 1, dismissed := True\<rparr>
          else st\<lparr>timers := timers st - 1, dialog_open := True\<rparr>)"
| "pwa_step st Dialog_confirm =
     (if \<not> dialog_open st then Inr st
      else if deferred st then Inr (st\<lparr>dialog_open := False, prompting := True\<rparr>)
      else Inl Null_prompt)"
| "pwa_step st Dialog_cancel =
     Inr (if dialog_open st then st\<lparr>dialog_open := False, dismissed := True\<rparr> else st)"
| "pwa_step st User_choice =
     Inr (if prompting st then st\<lparr>prompting := False, deferred := False\<rparr> else st)"
| "pwa_step st (Connection on) = Inr (update_online_status on st)"

text \<open>A sequence of events, stopping at the first error.\<close>

fun pwa_run :: "pwa_state \<Rightarrow> pwa_event list \<Rightarrow> pwa_error + pwa_state" where
  "pwa_run st [] = Inr st"
| "pwa_run st (ev # evs) = (case pwa_step st ev of Inl err \<Rightarrow> Inl err | Inr st' \<Rightarrow> pwa_run st' evs)"

inductive pwa_reach :: "pwa_state \<Rightarrow> bool" where
  init: "pwa_reach (pwa_init d on)"
| step: "pwa_reach st \<Longrightarrow> pwa_step st ev = Inr st' \<Longrightarrow> pwa_reach st'"

section \<open>Lemmas\<close>

lemma pwa_step_dismissed:
  "dismissed st \<Longrightarrow>
   (case pwa_step st ev of Inl err \<Rightarrow> True | Inr st' \<Rightarrow> dismissed st' \<and> timers st' \<le> timers st)"
  by (cases ev) (simp_all add: show_install_prompt_def update_online_status_def split: if_split)

lemma pwa_step_fields:
  "pwa_step st ev = Inr st' \<Longrightarrow> indicator_hidden st = online st \<Longrightarrow> indicator_hidden st' = online st'"
  "pwa_step st ev = Inr st' \<Longrightarrow> dismissed st \<Longrightarrow> dismissed st' \<and> timers st' \<le> timers st"
   apply (cases ev; auto simp: show_install_prompt_def update_online_status_def split: if_splits)
  using pwa_step_dismissed [of st ev] by simp

lemma pwa_step_error: "pwa_step st ev = Inl err \<longleftrightarrow> ev = Dialog_confirm \<and> dialog_open st \<and> \<not> deferred st"
  by (cases ev; cases err) auto

lemma pwa_run_append:
  "pwa_run st (xs @ ys) = (case pwa_run st xs of Inl err \<Rightarrow> Inl err | Inr st' \<Rightarrow> pwa_run st' ys)"
  by (induction xs arbitrary: st) (auto split: sum.split)

lemma pwa_reach_inv:
  "pwa_reach st \<Longrightarrow> indicator_hidden st = online st \<and> (prompting st \<longrightarrow> deferred st)"
proof (induction rule: pwa_reach.induct)
  case (init d on)
  then show ?case by (simp add: pwa_init_def update_online_status_def)
next
  case (step st ev st')
  then show ?case
    by (cases ev) (auto simp: show_install_prompt_def update_online_status_def split: if_splits)
qed

end
