(* ===== verification/Spec2Isabelle.thy ===== *)
theory Spec2Isabelle
  imports Prelude Transaction Dates DateText Aggregator Filtering Sorter DailySeries MonthKeys Store Export Pwa
begin

text \<open>
  \<^bold>\<open>A verification model of the finance tracker.\<close>

  The program (\<open>src/script.js\<close>, \<open>src/charts.js\<close>, \<open>src/export.js\<close>) is a
  single-page browser application: a module-level list of transactions, edited
  through a modal form, persisted whole to \<open>localStorage\<close> after every
  mutation, summarised on a dashboard and in three charts, and shown in a table
  that can be filtered (search, category, month, date range) and sorted by
  column.  Every handler runs to completion on one user event.

  \<^bold>\<open>Theories.\<close>
  \<^item> \<open>Prelude\<close>: the JavaScript primitives the code calls, modelled from the
    ECMAScript specification (\<open>toLowerCase\<close> on ASCII, \<open>includes\<close>,
    \<open>padStart\<close>, \<open>String(n)\<close> as \<open>show_nat\<close>, decimal reading as \<open>read_nat\<close>),
    with the round trip \<open>read_nat (show_nat n) = Some n\<close> and
    \<open>includes = sublist\<close>.  Numbers are exact rationals: amounts come from
    \<open>parseFloat\<close> of decimal input and are only added, divided and compared.
  \<^item> \<open>Transaction\<close>: the transaction object of \<open>handleFormSubmit\<close> as a record,
    its type as a datatype, the \<open>reduce\<close> summing amounts.
  \<^item> \<open>Dates\<close>: \<open>new Date('YYYY-MM-DD')\<close> as V8 parses it (UTC
    midnight; a month 1 to 12 and a day 1 to 31 accepted, a day past the end of
    the month rolled over into the next by \<open>MakeDay\<close>, so \<open>2024-02-30\<close> is
    1 March; \<open>DayFromYear\<close>; \<open>NaN\<close> as \<open>None\<close>), the predicate
    \<open>canonical_date\<close> of strings naming a calendar day, Date comparison, \<open>toISOString\<close>,
    and the local year and month read by \<open>getFullYear\<close>/\<open>getMonth\<close>.  The time
    zone is a fixed offset \<open>tz\<close> in minutes, \<open>|tz| < 1440\<close>, without daylight
    saving: the local date of UTC midnight is the previous day exactly when
    \<open>tz < 0\<close>.  Lemmas: \<open>day_number (prev_day d) = day_number d - 1\<close> on valid
    dates, hence consecutive days for \<open>days_back\<close>.
  \<^item> \<open>Aggregator\<close>: \<open>updateDashboard\<close>, \<open>formatCurrency\<close> (a money text is the
    currency symbol and \<open>Math.abs\<close> of the amount; digit grouping is not
    modelled), the savings progress, \<open>getLast7DaysData\<close>,
    \<open>getCategoryExpenseData\<close> and the data \<open>initializeCharts\<close>/\<open>updateCharts\<close>
    hand to Chart.js.
  \<^item> \<open>Filtering\<close>: \<open>filterTransactionData\<close> with its four predicates and
    \<open>populateMonthFilter\<close>; the filter is \<open>filter\<close> by their conjunction.
  \<^item> \<open>Sorter\<close>: the per-column direction state \<open>sortOrder\<close>, the comparator of
    \<open>sortTable\<close> (which returns 1 or -1, never 0) and \<open>Array.prototype.sort\<close>
    modelled as V8 sorts short arrays, inserting each element into the sorted
    prefix after the last element it does not compare below.  The lemmas show the
    result is a permutation ordered by the column, that ties come out reversed,
    and that on amounts and categories it equals the library's stable
    \<open>sort_key\<close> of the reversed list (ascending) or the reverse of it
    (descending).
  \<^item> \<open>Store\<close>: the global state and the DOM the handlers write as the record
    \<open>app_state\<close>, \<open>localStorage\<close> as \<open>storage\<close>, one definition per handler
    (\<open>handleFormSubmit\<close>, \<open>deleteTransaction\<close>, \<open>sortTable\<close>,
    \<open>filterTransactions\<close>, \<open>setSavingsTarget\<close>, currency and theme listeners,
    \<open>initializeApp\<close>), the event step \<open>app_step\<close>, and the reachable states
    \<open>reach\<close> as an inductive relation.  The clock \<open>Date.now()\<close>, the time zone
    and today's dates are the environment \<open>env\<close> of a step; the answers of the
    confirmation dialogs are arguments of the events.  \<open>JSON.stringify\<close>/
    \<open>JSON.parse\<close> of the list is taken as the identity.  The invariant
    \<open>app_inv\<close> (distinct ids made from earlier clock readings; storage a
    permutation of memory) holds in every reachable state by rule induction; the
    only assumption is that every event sees a later clock reading than those
    before, which is how \<open>reach\<close> is defined.
  \<^item> \<open>Export\<close>: the rows \<open>exportToExcel\<close> hands to XLSX and the header
    values and rows \<open>exportToPDF\<close> hands to html2pdf, computed from the filter
    state of the application as \<open>filterTransactionData()\<close> reads it from the
    page.
  \<^item> \<open>DateText\<close>: the text form of dates.  \<open>dec n a\<close> is the
    \<open>n\<close>-digit zero-padded decimal text; the lemmas show that printing a valid
    date (years 0000 to 9999) and parsing it are inverse, and that comparing two
    canonical date strings as strings compares the dates (a rolled-over string
    such as \<open>2024-02-31\<close> breaks this).
  \<^item> \<open>DailySeries\<close>: the specification's \<open>dailySeries(today, days)\<close> as an
    abstract definition over dates (\<open>balance_as_of\<close>, \<open>daily_series\<close>), and
    the refinement lemma that the values of \<open>getLast7DaysData\<close>, which compare
    strings, are that series when the stored dates are canonical.
  \<^item> \<open>MonthKeys\<close>: the format of month values (\<open>month_value_ok\<close>,
    \<open>YYYY-MM\<close> as a month input yields it), the lemmas that a month key of a
    valid date with a four-digit local year has that format and that its option
    label is the month's name and the year, and the shape of the month selector.
  \<^item> \<open>Pwa\<close>: the install prompt and the offline indicator as a step function
    \<open>pwa_step\<close> over the browser's callbacks (a second dialog replacing an
    open one dismisses it; the service-worker registration of a \<open>blob:\<close> URL
    always rejects, so it never schedules a dialog), with the error value
    \<open>Null_prompt\<close> for the \<open>TypeError\<close> of \<open>deferredPrompt.prompt()\<close> on
    \<open>null\<close>, event sequences \<open>pwa_run\<close> and the reachable states
    \<open>pwa_reach\<close>.
  \<^item> This theory: the concrete inputs of the witnesses and the properties C1 to
    C31, grouped by component: the store invariant, aggregates, filters, sorting,
    savings, dashboard display, handlers, search and persistence (settings
    included), exports, the daily series and its refinement, the install prompt,
    and liveness (from
    every reachable state a sequence of events \<open>app_run\<close> with increasing clock
    readings empties the tracker).

  \<^bold>\<open>Findings the properties document.\<close>  The month filter misfiles the
  first day of a month west of UTC (C13); the dashboard hides the sign of a
  negative balance (C14); the sort is not stable (C10) and is not persisted (C18);
  the month selector is reset while the table stays filtered (C19), and the
  exports then read the reset selector; amounts are not validated (C15 stores the
  form's amount as it is) and a category whose expenses add up to zero or less
  is left out of the chart (C4); the progress display goes stale for a target of
  0 (C21); a transaction with an empty date counts in every day of the balance
  chart (C29); a transaction with an invalid date adds the month option
  \<open>undefined NaN\<close> (C25).  Exported dates are the local date of UTC midnight,
  a day early west of UTC (\<open>local_date_text\<close>).

  \<^bold>\<open>Not modelled.\<close>  The html2pdf and XLSX libraries (only what they are
  given is modelled); Chart.js drawing, colours and the theme classes; SweetAlert dialogs
  beyond their answer; the service worker's caching code (a string registered as
  a Blob URL, run by the browser, not by the page);
  the digit grouping of \<open>toLocaleString\<close>; \<open>JSON.stringify\<close>/\<open>JSON.parse\<close>
  of the transaction list and \<open>String\<close>/\<open>parseFloat\<close> of the savings target
  in \<open>localStorage\<close>, taken as identities (the records hold strings and
  finite numbers, for which the round trip holds in JavaScript, but the string
  encodings themselves are not modelled); daylight-saving changes of the time
  zone; V8's legacy date parser, which \<open>new Date\<close> falls back to for strings
  not of the \<open>YYYY-MM-DD\<close> shape (they are \<open>NaN\<close> here; the date input
  never produces them); the order V8's binary insertion gives when the date
  column holds an invalid date (the sort's order lemmas assume valid dates there).  No bounds or fuel are needed: every
  loop of the code is a traversal of a finite list, modelled by structural
  recursion or a library combinator.
\<close>

section \<open>A concrete scenario\<close>

text \<open>
  The inputs the witnesses below evaluate the model on: two page loads in
  Jakarta (UTC+7), the transactions of the specification's end-to-end example,
  and a form submission.
\<close>

definition demo_env0 :: env where
  "demo_env0 = \<lparr>now_ms = 1000, tz = 420, local_today = (2024, 1, 2), utc_today = (2024, 1, 2)\<rparr>"

definition demo_env1 :: env where
  "demo_env1 = \<lparr>now_ms = 2000, tz = 420, local_today = (2024, 1, 2), utc_today = (2024, 1, 2)\<rparr>"

definition demo_form :: form_data where
  "demo_form = \<lparr>form_type = Expense, form_category = ''Makanan'', form_amount = 40000,
                form_date = ''2024-01-02'', form_description = ''Makan siang''\<rparr>"

definition demo_income :: transaction where
  "demo_income = \<lparr>tx_id = ''1'', tx_type = Income, category = ''Gaji'', amount = 100000,
                  date = ''2024-01-01'', description = []\<rparr>"

definition demo_expense :: transaction where
  "demo_expense = \<lparr>tx_id = ''2'', tx_type = Expense, category = ''Makanan'', amount = 40000,
                   date = ''2024-01-02'', description = ''Makan siang''\<rparr>"

definition demo_expense2 :: transaction where
  "demo_expense2 = \<lparr>tx_id = ''3'', tx_type = Expense, category = ''Hiburan'', amount = 40000,
                    date = ''2024-01-20'', description = ''Bioskop''\<rparr>"

definition january :: filter_spec where
  "january = empty_filter\<lparr>start_date_filter := ''2024-01-01'', end_date_filter := ''2024-01-31''\<rparr>"

definition demo_march :: transaction where
  "demo_march = \<lparr>tx_id = ''4'', tx_type = Expense, category = ''Transportasi'', amount = 15000,
                 date = ''2024-03-01'', description = ''Bensin''\<rparr>"

definition demo_storage :: storage where
  "demo_storage = empty_storage\<lparr>stored_transactions := Some [demo_income, demo_expense]\<rparr>"

lemmas demo_defs = demo_env0_def demo_env1_def demo_form_def demo_income_def demo_expense_def
  demo_expense2_def demo_march_def january_def empty_filter_def

section \<open>The transaction store\<close>

text \<open>
  C1. In every state the application reaches from empty storage, whatever the
  user does (adding, editing, deleting, sorting, reloading, changing settings),
  provided each event happens at a later clock reading than the ones before, the
  transaction ids are pairwise distinct, and each is the decimal string of a
  clock reading taken before.
\<close>

theorem reachable_ids_unique:
  "reach c st \<Longrightarrow>
     distinct (Transaction.ids (transactions st))
     \<and> (\<forall>i \<in> set (Transaction.ids (transactions st)). \<exists>n < c. i = show_nat n)"
  using reach_app_inv [of c st] by (simp add: app_inv_def ids_fresh_def)

theorem reachable_ids_unique_witness:
  "reach (Suc (now_ms demo_env1)) (app_step demo_env1 (load_app demo_env0 empty_storage) (Submit demo_form))
   \<and> distinct (Transaction.ids (transactions (app_step demo_env1 (load_app demo_env0 empty_storage) (Submit demo_form))))"
proof -
  have r: "reach (Suc (now_ms demo_env1)) (app_step demo_env1 (load_app demo_env0 empty_storage) (Submit demo_form))"
    by (rule reach.step [OF reach.start]) (simp add: demo_defs)
  show ?thesis using reachable_ids_unique [OF r] r by simp
qed

text \<open>
  C2. In every reachable state, what \<open>localStorage\<close> holds under
  \<open>transactions\<close> (the empty list when nothing is stored) is a permutation of the
  list in memory: no transaction is lost or duplicated between memory and storage.
\<close>

theorem reachable_storage_permutation:
  "reach c st \<Longrightarrow> mset (stored_list (store st)) = mset (transactions st)"
  using reach_app_inv [of c st] by (simp add: app_inv_def)

theorem reachable_storage_permutation_witness:
  "reach (Suc (now_ms demo_env1)) (app_step demo_env1 (load_app demo_env0 empty_storage) (Sort Amount_col))
   \<and> mset (stored_list (store (app_step demo_env1 (load_app demo_env0 empty_storage) (Sort Amount_col))))
     = mset (transactions (app_step demo_env1 (load_app demo_env0 empty_storage) (Sort Amount_col)))"
proof -
  have r: "reach (Suc (now_ms demo_env1)) (app_step demo_env1 (load_app demo_env0 empty_storage) (Sort Amount_col))"
    by (rule reach.step [OF reach.start]) (simp add: demo_defs)
  show ?thesis using reachable_storage_permutation [OF r] r by simp
qed

section \<open>Aggregates\<close>

text \<open>
  C3. The dashboard totals: income is the sum of the amounts of the income
  transactions, expense the sum of the amounts of the expense transactions, and
  the balance is income minus expense, for every list (the empty list included,
  where all three are 0).
\<close>

theorem dashboard_totals_correct:
  "income_total (dashboard_totals ts) = sum_list (map amount (filter (\<lambda>t. tx_type t = Income) ts))
   \<and> expense_total (dashboard_totals ts) = sum_list (map amount (filter (\<lambda>t. tx_type t = Expense) ts))
   \<and> balance_total (dashboard_totals ts) = income_total (dashboard_totals ts) - expense_total (dashboard_totals ts)"
  by (simp add: total_income_def total_expense_def sum_amount_sum_list)

text \<open>
  C4. The expense-per-category data keeps, in the order of the category list,
  exactly the categories whose sum of expense amounts is positive, and pairs each
  with that sum: a category with no expense, or whose expenses add up to zero or
  less, is left out of the chart.
\<close>

theorem category_totals_correct:
  "category_totals cats ts =
     (filter (\<lambda>c. 0 < sum_list (map amount (filter (\<lambda>t. tx_type t = Expense \<and> category t = c) ts))) cats,
      map (\<lambda>c. sum_list (map amount (filter (\<lambda>t. tx_type t = Expense \<and> category t = c) ts)))
        (filter (\<lambda>c. 0 < sum_list (map amount (filter (\<lambda>t. tx_type t = Expense \<and> category t = c) ts))) cats))"
  by (simp add: category_totals_filter category_expense_def sum_amount_sum_list)

section \<open>Filters\<close>

text \<open>
  C5. The month keys the month filter compares are values of the form an
  \<open><input type="month">\<close> and the month selector produce: for a stored date
  \<open>new Date\<close> accepts whose local year has four digits, the key is \<open>YYYY-MM\<close>
  with a month 01 to 12, and the selector labels it with the Indonesian month
  name and the year.
\<close>

theorem month_key_well_formed:
  assumes "parse_iso_date (date t) = Some p" "local_ymd z p = (y, m, d)" "1000 \<le> y"
  shows "month_value_ok (month_key z (date t))
    \<and> month_label (month_key z (date t)) = month_names ! (m - 1) @ '' '' @ show_int y"
proof -
  have k: "month_key z (date t) = dec 4 (nat y) @ ''-'' @ dec 2 m" "1 \<le> m" "m \<le> 12" "y < 10000"
    using month_key_form [OF assms] by simp_all
  then have "nat y < 10 ^ 4" by simp
  then show ?thesis
    using k assms(3) month_value_ok_dec [of "nat y" m] month_label_dec [of m "nat y"]
    by (simp add: show_int_dec4)
qed

theorem month_key_well_formed_witness:
  "month_value_ok (month_key 420 (date demo_income))
   \<and> month_label (month_key 420 (date demo_income)) = ''Januari 2024''"
proof -
  have p: "parse_iso_date (date demo_income) = Some (2024, 1, 1)" by (simp add: demo_income_def date_eval)
  have l: "local_ymd 420 (2024, 1, 1) = (2024, 1, 1)" by (simp add: local_ymd_def)
  from month_key_well_formed [OF p l] show ?thesis
    by (simp add: month_names_def show_int_def show_nat.simps digit_char_def)
qed

text \<open>
  C6. The filter keeps, in their order, exactly the transactions that match
  every filter input that is set: the lower-cased search text occurs in the
  lower-cased description or category; the category is the one chosen; the local
  month of the date is the month chosen; the date is on or after the start date
  and on or before the end date, compared as \<open>Date\<close>s.  An input left
  empty does not restrict.
\<close>

theorem filter_matches_spec:
  "filter_transaction_data z spec ts =
     filter (\<lambda>t. (search_input spec = [] \<or> sublist (js_lower (search_input spec)) (js_lower (description t))
                   \<or> sublist (js_lower (search_input spec)) (js_lower (category t)))
               \<and> (category_filter spec = [] \<or> category t = category_filter spec)
               \<and> (month_filter spec = [] \<or> month_key z (date t) = month_filter spec)
               \<and> (start_date_filter spec = [] \<or> js_ge (js_date (date t)) (js_date (start_date_filter spec)))
               \<and> (end_date_filter spec = [] \<or> js_le (js_date (date t)) (js_date (end_date_filter spec)))) ts"
proof -
  have s: "matches_search (js_lower (search_input spec)) t \<longleftrightarrow>
        search_input spec = [] \<or> sublist (js_lower (search_input spec)) (js_lower (description t))
        \<or> sublist (js_lower (search_input spec)) (js_lower (category t))" for t
    by (cases "description t") (auto simp: matches_search_def js_includes_sublist js_lower_def)
  show ?thesis
    unfolding filter_transaction_data_filter
    by (rule filter_cong [OF refl])
       (auto simp: s matches_all_def matches_category_def matches_month_def matches_date_range_def Let_def)
qed

text \<open>
  C7. With both a start and an end date set, every transaction the filter keeps
  has a valid date whose time value lies between those of the two bounds,
  inclusive; both bounds are valid dates.
\<close>

theorem filter_date_range_bounds:
  assumes "t \<in> set (filter_transaction_data z spec ts)"
    and "start_date_filter spec \<noteq> []" and "end_date_filter spec \<noteq> []"
  shows "\<exists>v s e. js_date (date t) = Some v \<and> js_date (start_date_filter spec) = Some s
                 \<and> js_date (end_date_filter spec) = Some e \<and> s \<le> v \<and> v \<le> e"
proof -
  from assms(1) have m: "matches_date_range (start_date_filter spec) (end_date_filter spec) t"
    by (simp add: filter_transaction_data_filter matches_all_def)
  show ?thesis
    using matches_date_range_start [OF m assms(2)] matches_date_range_end [OF m assms(3)]
    by (auto simp: js_ge_Some)
qed

theorem filter_date_range_bounds_witness:
  "demo_expense \<in> set (filter_transaction_data 420 january [demo_income, demo_expense])
   \<and> (\<exists>v s e. js_date (date demo_expense) = Some v \<and> js_date (start_date_filter january) = Some s
                 \<and> js_date (end_date_filter january) = Some e \<and> s \<le> v \<and> v \<le> e)"
proof -
  have mem: "demo_expense \<in> set (filter_transaction_data 420 january [demo_income, demo_expense])"
    by (simp add: demo_defs filter_transaction_data_def matches_search_def matches_category_def
        matches_month_def matches_date_range_def date_eval)
  have "\<exists>v s e. js_date (date demo_expense) = Some v \<and> js_date (start_date_filter january) = Some s
                 \<and> js_date (end_date_filter january) = Some e \<and> s \<le> v \<and> v \<le> e"
    by (rule filter_date_range_bounds [OF mem]) (simp_all add: january_def)
  with mem show ?thesis by blast
qed

section \<open>Sorting\<close>

text \<open>
  C8. Each click on a column flips that column's remembered direction (so two
  clicks in a row give opposite directions and restore it), and leaves the
  directions of the other two columns as they were.
\<close>

theorem sort_direction_toggles:
  "get_order col (fst (sort_table col so ts)) \<noteq> get_order col so
   \<and> get_order col (fst (sort_table col (fst (sort_table col so ts)) ts')) = get_order col so
   \<and> (\<forall>c. c \<noteq> col \<longrightarrow> get_order c (fst (sort_table col so ts)) = get_order c so)"
  by (simp add: sort_table_def Let_def)

theorem sort_direction_toggles_witness:
  "get_order Amount_col (fst (sort_table Amount_col initial_sort_order [])) = Asc
   \<and> get_order Date_col (fst (sort_table Amount_col initial_sort_order [])) = Desc"
  using sort_direction_toggles [of Amount_col initial_sort_order "[]" "[]"]
  by (simp add: sort_table_def initial_sort_order_def toggle_dir_def)

text \<open>
  C9. \<open>sortTable\<close> reorders the list without losing or duplicating a
  transaction, and the result is ordered by the clicked column in its new
  direction: no transaction is followed by one the comparator puts before it.
  For the date column this needs every date to be valid.
\<close>

theorem sort_table_sorted_permutation:
  assumes "col = Date_col \<longrightarrow> valid_dates ts" and "sort_table col so ts = (so', ts')"
  shows "mset ts' = mset ts \<and> sorted_wrt (in_order col (get_order col so')) ts'"
  using assms js_sort_in_order [of col ts] by (auto simp: sort_table_def Let_def)

theorem sort_table_sorted_permutation_witness:
  "sort_table Amount_col initial_sort_order [demo_income, demo_expense]
     = (initial_sort_order\<lparr>amount_order := Asc\<rparr>, [demo_expense, demo_income])
   \<and> sorted_wrt (in_order Amount_col Asc) [demo_expense, demo_income]"
proof -
  have eq: "sort_table Amount_col initial_sort_order [demo_income, demo_expense]
     = (initial_sort_order\<lparr>amount_order := Asc\<rparr>, [demo_expense, demo_income])"
    by (simp add: sort_table_def initial_sort_order_def toggle_dir_def js_sort_def sort_compare_def demo_defs)
  show ?thesis using sort_table_sorted_permutation [OF _ eq] eq by simp
qed

text \<open>
  C10. The sort is not stable: transactions the clicked column cannot tell apart
  end up in the reverse of their order before the click, in either direction.
  For the date column this is stated for valid dates, where the comparator is
  consistent and V8's insertion sort of a short array places each element after
  the run of its ties; two expenses of 40000 swap places on every click on the
  amount column.
\<close>

theorem sort_table_reverses_ties:
  assumes "col = Date_col \<longrightarrow> valid_dates ts"
  shows "filter (same_key col v) (snd (sort_table col so ts)) = rev (filter (same_key col v) ts)"
  using js_sort_ties_reversed by (simp add: sort_table_def Let_def)

theorem sort_table_reverses_ties_witness:
  "snd (sort_table Amount_col initial_sort_order [demo_expense, demo_expense2]) = [demo_expense2, demo_expense]"
proof -
  have "filter (same_key Amount_col demo_expense) (snd (sort_table Amount_col initial_sort_order [demo_expense, demo_expense2]))
        = [demo_expense2, demo_expense]"
    using sort_table_reverses_ties [of Amount_col "[demo_expense, demo_expense2]" demo_expense initial_sort_order]
    by (simp add: demo_defs)
  moreover have "length (snd (sort_table Amount_col initial_sort_order [demo_expense, demo_expense2])) = 2"
    using mset_js_sort [of _ "[demo_expense, demo_expense2]"]
    by (simp add: sort_table_def Let_def flip: size_mset)
  ultimately show ?thesis
    by (metis filter_id_conv length_filter_less less_irrefl_nat list.size(3) list.size(4)
        numeral_2_eq_2 One_nat_def add_0 plus_1_eq_Suc)
qed

text \<open>
  C11. Sorting by amount (and likewise by category) is an ordinary stable sort
  applied to the reversed list when ascending, and the reverse of a stable sort of
  the list when descending.
\<close>

theorem sort_amount_characterisation:
  "snd (sort_table Amount_col so ts) =
     (if get_order Amount_col so = Desc then sort_key amount (rev ts) else rev (sort_key amount ts))
   \<and> snd (sort_table Category_col so ts) =
     (if get_order Category_col so = Desc then sort_key (\<lambda>t. js_lower (category t)) (rev ts)
      else rev (sort_key (\<lambda>t. js_lower (category t)) ts))"
  by (cases "amount_order so"; cases "category_order so")
     (simp_all add: sort_table_def Let_def toggle_dir_def sort_amount_asc sort_amount_desc
      sort_category_asc sort_category_desc)

section \<open>Savings progress\<close>

text \<open>
  C12. The progress is computed exactly when the target is positive; it is then
  \<open>min(balance / target * 100, 100)\<close>, so neither it nor the rounded percentage
  shown exceeds 100, and it is negative exactly when the balance is negative (no
  lower clamp).
\<close>

theorem savings_progress_bounds:
  "(savings_progress b target = None \<longleftrightarrow> target \<le> 0)
   \<and> (\<forall>p. savings_progress b target = Some p \<longrightarrow>
         p = min (b / target * 100) 100 \<and> p \<le> 100 \<and> js_round p \<le> 100 \<and> (p < 0 \<longleftrightarrow> b < 0))"
  using savings_progress_sign [of target b] by (auto simp: savings_progress_def js_round_le)

theorem savings_progress_bounds_witness:
  "savings_progress (-5000) 100000 = Some (-5) \<and> js_round (-5) \<le> 100"
  using savings_progress_bounds [of "-5000" 100000]
  by (simp add: savings_progress_def)

text \<open>
  C13. The month filter reads the month in local time from a date that
  \<open>new Date\<close> parses as UTC midnight: west of UTC (negative offset) a
  transaction dated the first of a month is listed under the previous month and
  is missing from its own month.
\<close>

theorem month_filter_negative_offset:
  assumes "z < 0" and "date t = ''2024-03-01''"
  shows "\<not> matches_month z ''2024-03'' t \<and> matches_month z ''2024-02'' t"
  using assms by (simp add: matches_month_def date_eval)

theorem month_filter_negative_offset_witness:
  "filter_transaction_data (-300) (empty_filter\<lparr>month_filter := ''2024-03''\<rparr>) [demo_march] = []
   \<and> \<not> matches_month (-300) ''2024-03'' demo_march"
proof -
  have "\<not> matches_month (-300) ''2024-03'' demo_march \<and> matches_month (-300) ''2024-02'' demo_march"
    by (rule month_filter_negative_offset) (simp_all add: demo_march_def)
  then show ?thesis by (simp add: filter_transaction_data_filter matches_all_def empty_filter_def)
qed

section \<open>Dashboard display\<close>

text \<open>
  C14. \<open>formatCurrency\<close> prints \<open>Math.abs(amount)\<close>: the dashboard shows a
  negative balance exactly as the positive balance of the same size, with no
  sign.
\<close>

theorem balance_sign_lost:
  "total_income ts - total_expense ts = - (total_income ts' - total_expense ts') \<Longrightarrow>
   balance_text (update_dashboard cur tg ts d) = balance_text (update_dashboard cur tg' ts' d')"
  by (simp add: format_currency_def)

theorem balance_sign_lost_witness:
  "balance_text (update_dashboard ''IDR'' 0 [demo_income] blank_dashboard)
     = balance_text (update_dashboard ''IDR'' 0 [demo_income\<lparr>tx_type := Expense\<rparr>] blank_dashboard)"
  by (rule balance_sign_lost) (simp add: demo_defs)

section \<open>Handlers\<close>

text \<open>
  C15. Submitting the form while no transaction is being edited prepends a new
  transaction built from the form, with the clock reading as its id, writes the new
  list to storage, adds its amount to the total of its type, and closes the modal.
\<close>

theorem submit_adds_transaction:
  assumes "editing_id st = None"
  shows "transactions (handle_form_submit e fd st) = new_transaction (now_ms e) fd # transactions st
    \<and> stored_list (store (handle_form_submit e fd st)) = transactions (handle_form_submit e fd st)
    \<and> total_income (transactions (handle_form_submit e fd st))
        = total_income (transactions st) + (if form_type fd = Income then form_amount fd else 0)
    \<and> total_expense (transactions (handle_form_submit e fd st))
        = total_expense (transactions st) + (if form_type fd = Expense then form_amount fd else 0)
    \<and> \<not> modal_open (handle_form_submit e fd st) \<and> editing_id (handle_form_submit e fd st) = None"
  using assms submit_effect [of e fd st]
  by (simp add: handle_form_submit_def Let_def new_transaction_def)

theorem submit_adds_transaction_witness:
  "transactions (handle_form_submit demo_env1 demo_form (load_app demo_env0 demo_storage))
     = [new_transaction 2000 demo_form, demo_income, demo_expense]"
proof -
  have "editing_id (load_app demo_env0 demo_storage) = None" by simp
  from submit_adds_transaction [OF this, of demo_env1 demo_form] show ?thesis
    by (simp add: demo_env1_def demo_storage_def stored_list_def)
qed

text \<open>
  C16. Submitting the form while editing the transaction with a (non-empty) id
  \<open>i\<close> replaces every field of that transaction but its id by the form's,
  in place, and leaves the other transactions, the order and the ids unchanged;
  the new list is written to storage.  (Ids are distinct in every reachable state,
  C1.)
\<close>

theorem submit_edits_in_place:
  assumes "editing_id st = Some i" and "i \<noteq> []" and "distinct (ids (transactions st))"
  shows "transactions (handle_form_submit e fd st)
           = map (\<lambda>t. if tx_id t = i
                      then t\<lparr>tx_type := form_type fd, category := form_category fd, amount := form_amount fd,
                             date := form_date fd, description := form_description fd\<rparr>
                      else t) (transactions st)
    \<and> ids (transactions (handle_form_submit e fd st)) = ids (transactions st)
    \<and> stored_list (store (handle_form_submit e fd st)) = transactions (handle_form_submit e fd st)"
  using assms submit_effect [of e fd st] edit_transactions_map [of "transactions st" i fd]
    ids_edit_transactions [of i fd "transactions st"]
  by (simp add: merge_form_def)

theorem submit_edits_in_place_witness:
  "transactions (handle_form_submit demo_env1 demo_form
      ((load_app demo_env0 demo_storage)\<lparr>editing_id := Some ''1''\<rparr>))
     = [demo_income\<lparr>tx_type := Expense, category := ''Makanan'', amount := 40000,
          date := ''2024-01-02'', description := ''Makan siang''\<rparr>, demo_expense]"
proof -
  let ?st = "(load_app demo_env0 demo_storage)\<lparr>editing_id := Some ''1''\<rparr>"
  have ts: "transactions ?st = [demo_income, demo_expense]"
    by (simp add: demo_storage_def stored_list_def)
  have i: "tx_id demo_income = ''1''" "tx_id demo_expense = ''2''" by (simp_all add: demo_defs)
  have "distinct (ids (transactions ?st))" by (simp add: demo_defs demo_storage_def stored_list_def ids_def)
  from submit_edits_in_place [of ?st "''1''", OF _ _ this, of demo_env1 demo_form] show ?thesis
    unfolding ts by (simp add: i demo_form_def)
qed

text \<open>
  C17. A confirmed delete removes exactly the transactions with the given id,
  keeps the others in order and writes the result to storage; a cancelled delete
  changes nothing.
\<close>

theorem delete_removes_id:
  "transactions (delete_transaction e i True st) = filter (\<lambda>t. tx_id t \<noteq> i) (transactions st)
   \<and> stored_list (store (delete_transaction e i True st)) = transactions (delete_transaction e i True st)
   \<and> i \<notin> set (ids (transactions (delete_transaction e i True st)))
   \<and> delete_transaction e i False st = st"
  by (auto simp: delete_transaction_def ids_def)

text \<open>
  C18. A sort reorders the list in memory only: it is not written to storage, so
  reloading the page after a sort brings back the order stored before it, with
  the initial sort directions.
\<close>

theorem sort_not_persisted:
  "store (app_step e' st (Sort col)) = store st
   \<and> transactions (app_step e (app_step e' st (Sort col)) Reload) = stored_list (store st)
   \<and> sort_ord (app_step e (app_step e' st (Sort col)) Reload) = initial_sort_order"
  using sort_effect [of e' col st] by simp

text \<open>
  C19. After every add or edit the month selector is rebuilt and so shows
  ``all months'', but the table was rendered before that with the month filter
  still set: the table stays filtered by a month the selector no longer shows.
\<close>

theorem month_filter_reset_after_submit:
  "month_filter (filters (handle_form_submit e fd st)) = []
   \<and> table (handle_form_submit e fd st)
       = render_table (tz e) (filters st) (transactions (handle_form_submit e fd st))"
  by (simp add: handle_form_submit_def Let_def)

text \<open>
  C20. The savings-target dialog rejects an empty or negative value and a
  cancelled confirmation without changing anything; an accepted value becomes the
  target and is written to storage.
\<close>

theorem set_target_validation:
  "set_savings_target e None c st = st
   \<and> (x < 0 \<longrightarrow> set_savings_target e (Some x) c st = st)
   \<and> set_savings_target e v False st = st
   \<and> (0 \<le> x \<longrightarrow> savings_target (set_savings_target e (Some x) True st) = x
                  \<and> stored_target (store (set_savings_target e (Some x) True st)) = Some x)"
  by (cases v) (simp_all add: set_savings_target_cases)

theorem set_target_validation_witness:
  "set_savings_target demo_env0 (Some (-1)) True (load_app demo_env0 empty_storage) = load_app demo_env0 empty_storage
   \<and> savings_target (set_savings_target demo_env0 (Some 100000) True (load_app demo_env0 empty_storage)) = 100000"
  using set_target_validation [of demo_env0 True "load_app demo_env0 empty_storage" "-1" None]
        set_target_validation [of demo_env0 True "load_app demo_env0 empty_storage" 100000 None]
  by simp

text \<open>
  C21. When the target is not positive, \<open>updateDashboard\<close> skips the progress
  block: the percentage and the bar keep what they showed for the previous
  target, so lowering the target to 0 leaves a stale progress on screen.
\<close>

theorem progress_stale_without_target:
  assumes "target \<le> 0"
  shows "progress_text (update_dashboard cur target ts d) = progress_text d
    \<and> bar_width (update_dashboard cur target ts d) = bar_width d"
  using assms by (simp add: update_dashboard_progress savings_progress_def)

theorem progress_stale_without_target_witness:
  "progress_text (update_dashboard ''IDR'' 0 [demo_income] (blank_dashboard\<lparr>progress_text := Some 60\<rparr>)) = Some 60"
  using progress_stale_without_target [of 0 "''IDR''" "[demo_income]" "blank_dashboard\<lparr>progress_text := Some 60\<rparr>"]
  by simp

section \<open>Search and persistence\<close>


text \<open>
  C23. Every add, edit and confirmed delete writes the whole list to storage, so
  reloading the page right after it gives back exactly the list in memory, in its
  order.
\<close>

theorem reload_after_mutation:
  "transactions (app_step e (app_step e' st (Submit fd)) Reload) = transactions (app_step e' st (Submit fd))
   \<and> transactions (app_step e (app_step e' st (Delete i True)) Reload) = transactions (app_step e' st (Delete i True))"
  using submit_effect [of e' fd st] delete_effect [of e' i True st] by simp

text \<open>
  C24. The settings survive a reload: after choosing a currency, the next page
  load shows it (IDR for the empty choice); after toggling the theme, the next
  load has the toggled theme; after an accepted non-negative savings target, the
  next load has that target.
\<close>

theorem settings_survive_reload:
  "current_currency (app_step e (app_step e' st (Set_currency c)) Reload) = (if c = [] then ''IDR'' else c)
   \<and> is_dark_mode (app_step e (app_step e' st Toggle_dark) Reload) = (\<not> is_dark_mode st)
   \<and> (0 \<le> x \<longrightarrow> savings_target (app_step e (app_step e' st (Set_target (Some x) True)) Reload) = x)"
  by (simp add: set_savings_target_cases set_currency_def toggle_dark_mode_def load_app_def Let_def
      render_def refresh_dashboard_def refresh_month_filter_def)

theorem settings_survive_reload_witness:
  "savings_target (app_step demo_env1 (app_step demo_env0 (load_app demo_env0 empty_storage)
      (Set_target (Some 100000) True)) Reload) = 100000"
  using settings_survive_reload [of demo_env1 demo_env0 "load_app demo_env0 empty_storage" "[]" 100000]
  by simp

text \<open>
  C25. The month selector starts with the ``all months'' option, lists each
  month of the transactions once, most recent first, and nothing else; a
  transaction whose date \<open>new Date\<close> rejects adds the option
  \<open>NaN-NaN\<close>, labelled \<open>undefined NaN\<close>.
\<close>

theorem month_selector_options:
  "hd (populate_month_filter z ts) = ([], ''Semua Bulan'')
   \<and> sorted_wrt (\<lambda>a b. b < a) (map fst (tl (populate_month_filter z ts)))
   \<and> set (map fst (tl (populate_month_filter z ts))) = (\<lambda>t. month_key z (date t)) ` set ts
   \<and> populate_month_filter 420 [demo_income\<lparr>date := []\<rparr>]
       = [([], ''Semua Bulan''), (''NaN-NaN'', ''undefined NaN'')]"
  using populate_month_filter_shape [of z ts]
  by (simp add: populate_month_filter_def month_keys_def month_key_def parse_iso_date_def iso_fields_def
      month_label_def js_parse_int_def read_nat_def is_digit_def js_split.simps)

section \<open>Exports\<close>

text \<open>
  C26. Right after the filters are applied, the spreadsheet export has one row per
  row of the table, in the table's order, and the PDF lists the same transactions.
\<close>

theorem export_matches_table:
  assumes "table (filter_transactions e spec st) = Some rows"
  shows "export_excel e (filter_transactions e spec st) = map (excel_row_of (tz e)) rows
    \<and> pdf_rows (export_pdf e (filter_transactions e spec st))
        = map (pdf_row_of (tz e) (current_currency st)) rows"
proof -
  have "rows = filter_transaction_data (tz e) spec (transactions st)"
    using assms by (simp add: table_filter_transactions split: if_splits)
  then show ?thesis
    by (simp add: export_excel_def export_pdf_def filter_transactions_def render_def)
qed

theorem export_matches_table_witness:
  "export_excel demo_env0 (filter_transactions demo_env0 january (load_app demo_env0 demo_storage))
     = map (excel_row_of 420) [demo_income, demo_expense]"
proof -
  have ts: "stored_list demo_storage = [demo_income, demo_expense]"
    by (simp add: demo_storage_def stored_list_def)
  have f: "filter_transaction_data 420 january [demo_income, demo_expense] = [demo_income, demo_expense]"
    by (simp add: filter_transaction_data_filter matches_all_def matches_search_def matches_category_def
        matches_month_def matches_date_range_def demo_defs date_eval)
  have "table (filter_transactions demo_env0 january (load_app demo_env0 demo_storage))
      = Some [demo_income, demo_expense]"
    by (simp add: table_filter_transactions ts f demo_env0_def)
  from export_matches_table [OF this] show ?thesis by (simp add: demo_env0_def)
qed

text \<open>
  C27. The spreadsheet keeps the type, category and amount of every exported
  transaction: reading \<open>Jumlah\<close> as positive for \<open>Pemasukan\<close> and negative
  otherwise, the rows add up to the balance of the filtered transactions.
\<close>

theorem excel_rows_sum_to_balance:
  "sum_list (map (\<lambda>r. if jenis r = ''Pemasukan'' then jumlah r else - jumlah r) (export_excel e st))
     = total_income (filter_transaction_data (tz e) (filters st) (transactions st))
       - total_expense (filter_transaction_data (tz e) (filters st) (transactions st))"
  by (simp add: export_excel_def comp_def excel_signed_amount signed_sum_totals)

section \<open>The daily series\<close>

text \<open>
  C28. The seven values of the balance chart are the specification's
  \<open>dailySeries(today, 7)\<close>: for each of the seven UTC days ending today, oldest
  first, the balance of all transactions dated on or before that day, as dates.
  This holds when every stored date is canonical (a day of the calendar written
  \<open>YYYY-MM-DD\<close>, as the date input writes it) and the seven days lie in the
  years 0000 to 9999.
\<close>

theorem last7_refines_daily_series:
  assumes "canonical_dates ts" "valid_ymd u" "0 \<le> fst (days_back 6 u)" "fst u < 10000"
  shows "snd (last7_days_data l u ts) = daily_series u 7 ts"
  using assms by (rule last7_values_daily_series)

theorem last7_refines_daily_series_witness:
  "snd (last7_days_data (2024, 1, 2) (2024, 1, 2) [demo_income, demo_expense])
     = daily_series (2024, 1, 2) 7 [demo_income, demo_expense]"
proof (rule last7_refines_daily_series)
  show "canonical_dates [demo_income, demo_expense]"
    by (simp add: canonical_dates_def canonical_date_def demo_defs date_eval)
  show "valid_ymd (2024, 1, 2)" by (simp add: valid_ymd_def days_in_month_def)
  show "0 \<le> fst (days_back 6 (2024, 1, 2))"
    by (simp add: prev_day_def days_in_month_def numeral_eq_Suc)
  show "fst (2024::int, 1::nat, 2::nat) < 10000" by simp
qed

text \<open>
  C29. The string comparison does not agree with the specification on a date that
  is not a valid date: a transaction saved with an empty date (the handler does not
  check it) counts, with its sign, in the balance of every day of the chart, for
  every day string and every other list, while as a date (\<open>NaN\<close>) it is on or
  before no day and changes no balance of the specification's series.
\<close>

theorem empty_date_counted_every_day:
  assumes "date t = []"
  shows "day_balance ds (t # ts) = (if tx_type t = Income then amount t else - amount t) + day_balance ds ts
    \<and> balance_as_of u (t # ts) = balance_as_of u ts"
  using assms
  by (cases "tx_type t")
     (simp_all add: day_balance_def balance_as_of_def Let_def total_income_def total_expense_def
      js_date_def parse_iso_date_def iso_fields_def js_ge_def)

theorem empty_date_counted_every_day_witness:
  "day_balance ''2024-01-02'' [demo_income\<lparr>date := []\<rparr>] = 100000
   \<and> balance_as_of (2024, 1, 2) [demo_income\<lparr>date := []\<rparr>] = 0"
  using empty_date_counted_every_day [of "demo_income\<lparr>date := []\<rparr>" "''2024-01-02''" "[]" "(2024, 1, 2)"]
  by (simp add: demo_income_def day_balance_def balance_as_of_def Let_def)

section \<open>Install prompt and offline indicator\<close>

text \<open>
  C30. In every state of the page, the offline indicator is hidden exactly when
  the browser is online, an install prompt is only in progress while a prompt
  event is held, and once the user has dismissed the install dialog no event
  schedules another one (the dismissal is kept and the pending timers only
  decrease).
\<close>

theorem pwa_invariant:
  assumes "pwa_reach st"
  shows "indicator_hidden st = online st \<and> (prompting st \<longrightarrow> deferred st)
    \<and> (dismissed st \<longrightarrow> pwa_step st ev = Inr st' \<longrightarrow> dismissed st' \<and> timers st' \<le> timers st)"
  using pwa_reach_inv [OF assms] pwa_step_fields(2) by blast

theorem pwa_invariant_witness:
  "indicator_hidden (pwa_init True False) = online (pwa_init True False)
   \<and> timers (pwa_init True False\<lparr>deferred := True\<rparr>) = 0"
proof -
  have "pwa_reach (pwa_init True False)" by (rule pwa_reach.init)
  from pwa_invariant [OF this, of Timer_fired "pwa_init True False"] show ?thesis
    by (simp add: pwa_init_def update_online_status_def)
qed

section \<open>Liveness\<close>

text \<open>
  C31. From every state the application reaches, the user can always empty the
  tracker: confirming the delete of each transaction in turn, at later and later
  clock readings, leads to a reachable state with no transaction in memory and
  none in storage.
\<close>

theorem can_always_empty:
  assumes "reach c st"
  shows "\<exists>evs c'. clocked c evs \<and> reach c' (app_run st evs)
           \<and> transactions (app_run st evs) = [] \<and> stored_list (store (app_run st evs)) = []"
proof -
  let ?evs = "delete_events demo_env0 c (Transaction.ids (transactions st))"
  have cl: "clocked c ?evs" by (rule clocked_delete_events)
  then obtain c' where r: "reach c' (app_run st ?evs)" using reach_app_run [OF assms] by blast
  have t: "transactions (app_run st ?evs) = []"
    by (simp add: transactions_delete_events Transaction.ids_def filter_empty_conv)
  have "mset (stored_list (store (app_run st ?evs))) = mset (transactions (app_run st ?evs))"
    using reach_app_inv [OF r] by (simp add: app_inv_def)
  then have "stored_list (store (app_run st ?evs)) = []" using t by simp
  with cl r t show ?thesis by blast
qed

theorem can_always_empty_witness:
  "\<exists>evs c'. clocked (Suc 2000) evs
     \<and> reach c' (app_run (app_step demo_env1 (load_app demo_env0 empty_storage) (Submit demo_form)) evs)
     \<and> transactions (app_run (app_step demo_env1 (load_app demo_env0 empty_storage) (Submit demo_form)) evs) = []"
proof -
  have r: "reach (Suc 2000) (app_step demo_env1 (load_app demo_env0 empty_storage) (Submit demo_form))"
    using reach.step [OF reach.start, of demo_env0 demo_env1 "Submit demo_form"] by (simp add: demo_defs)
  from can_always_empty [OF r] show ?thesis by blast
qed

end
